theory Spec2Isabelle
  imports Complex_Main "HOL-Library.Sublist"
    "HOL-Library.Char_ord" "HOL-Library.List_Lexorder" "HOL-Library.Product_Lexorder"
begin

section \<open>Silver Transformation Manager: the administrative handlers\<close>

text \<open>
  The theory embeds the write and read paths of
  \<^verbatim>\<open>src/silver/silver_streamlit/streamlit_app.py\<close>: the helper for procedure
  calls, the Target Table Designer, the Field Mapper and the listings of the Rules
  Engine.

  The application talks to the database by building the text of a statement and
  handing it to the session through \<^verbatim>\<open>execute_query\<close>. A statement is represented
  here by its meaning on the table it names: an \<^verbatim>\<open>INSERT\<close> appends the row it carries,
  an \<^verbatim>\<open>UPDATE ... WHERE id = k\<close> rewrites the columns it assigns in every row with that
  id, a \<^verbatim>\<open>DELETE ... WHERE id = k\<close> drops those rows, a \<^verbatim>\<open>SELECT\<close> filters and orders
  the rows (\<^verbatim>\<open>ORDER BY\<close> as a stable sort of the stored order; the database fixes no
  order among equal keys, and no statement below relies on one). Tables are lists of
  records in storage order.

  \<^verbatim>\<open>execute_query\<close> catches every exception of the session and returns an empty frame,
  so a statement the database rejects changes no row and the handler goes on. The
  Target Table Designer puts the texts of its forms between single quotes as they
  are; whether the database accepts such a statement, and which value it reads, is
  modelled for each of its statements. The Field Mapper doubles the quote characters
  of the texts the user enters before it splices them, and its statements are taken
  to execute with the text as entered.

  Python strings are ASCII \<^typ>\<open>string\<close>s; timestamps are integers;
  \<^verbatim>\<open>CURRENT_TIMESTAMP()\<close> is the parameter \<open>now\<close>. Column values that only the table's
  DDL fixes (generated ids, creation times) are parameters of the handlers. Stored
  procedures are not part of the sources: \<^verbatim>\<open>execute_procedure\<close> takes the session's
  answer to a call as its input.
\<close>


subsection \<open>Python string operations\<close>

text \<open>\<^verbatim>\<open>sub in s\<close> on strings: \<open>sub\<close> occurs in \<open>s\<close> as a contiguous block.\<close>

fun in_str :: "string \<Rightarrow> string \<Rightarrow> bool" where
  "in_str sub [] = (sub = [])"
| "in_str sub (c # cs) = (prefix sub (c # cs) \<or> in_str sub cs)"

subsection \<open>The session helpers\<close>

text \<open>
  \<^verbatim>\<open>session.sql(q).collect()\<close> either raises (\<open>Inl\<close> of the exception's text) or
  returns rows; a row is the list of its values in column order, as
  \<^verbatim>\<open>list(row.as_dict().values())\<close> gives them. \<open>py_str\<close> is Python's \<^verbatim>\<open>str\<close> on
  a cell value.
\<close>

type_synonym 'v collected = "string + 'v list list"

definition first_value :: "'v list \<Rightarrow> string + 'v" where
  "first_value vs = (case vs of [] \<Rightarrow> Inl ''list index out of range'' | v # _ \<Rightarrow> Inr v)"

definition execute_procedure ::
  "('v \<Rightarrow> string) \<Rightarrow> (string \<Rightarrow> 'v collected) \<Rightarrow> string \<Rightarrow> string" where
  "execute_procedure py_str session_sql proc_call =
     (case session_sql proc_call of
        Inl e \<Rightarrow> ''Error: '' @ e
      | Inr result \<Rightarrow>
          (if result \<noteq> [] \<and> length result > 0
           then (case first_value (hd result) of
                   Inl e \<Rightarrow> ''Error: '' @ e
                 | Inr v \<Rightarrow> py_str v)
           else ''Procedure executed successfully''))"

subsection \<open>Messages shown to the user\<close>

text \<open>The Streamlit calls of a handler, with the text they carry (decorations left out).\<close>

datatype ui_msg = st_success string | st_warning string | st_error string | st_info string

text \<open>
  The Target Table Designer, after its metadata writes, calls
  \<^verbatim>\<open>sync_table_with_metadata\<close> and classifies the string it gets back.
\<close>

definition sync_classify :: "string \<Rightarrow> ui_msg" where
  "sync_classify result =
     (if in_str ''Successfully'' result \<or> in_str ''Recreated'' result
      then st_success (''Changes saved and table synced! '' @ result)
      else st_warning (''Changes saved to metadata, but table sync had issues: '' @ result))"

fun is_success :: "ui_msg \<Rightarrow> bool" where
  "is_success (st_success _) = True"
| "is_success _ = False"

subsection \<open>More Python string operations\<close>

text \<open>\<^verbatim>\<open>str.upper()\<close> on ASCII text: the letters a..z move to A..Z.\<close>

definition char_upper :: "char \<Rightarrow> char" where
  "char_upper c =
     (let n = (of_char c :: nat) in if 97 \<le> n \<and> n \<le> 122 then char_of (n - 32) else c)"

definition upper :: "string \<Rightarrow> string" where
  "upper s = map char_upper s"


subsection \<open>Cells of a data frame\<close>

text \<open>
  A cell of an editor frame holds a text or nothing, and pandas gives nothing as
  \<^verbatim>\<open>None\<close> or as \<^verbatim>\<open>NaN\<close>. \<^verbatim>\<open>pd.isna\<close> is true of both; Python's truth test is
  false on \<^verbatim>\<open>None\<close> and on the empty text and true on \<^verbatim>\<open>NaN\<close>; \<^verbatim>\<open>str\<close>, which an
  f-string applies to what it splices, gives \<^verbatim>\<open>None\<close>, \<^verbatim>\<open>nan\<close> or the text.
\<close>

datatype cell = Cell_None | Cell_NaN | Text string

fun cell_isna :: "cell \<Rightarrow> bool" where
  "cell_isna (Text _) = False"
| "cell_isna _ = True"

fun cell_truthy :: "cell \<Rightarrow> bool" where
  "cell_truthy Cell_None = False"
| "cell_truthy Cell_NaN = True"
| "cell_truthy (Text s) = (s \<noteq> [])"

fun cell_str :: "cell \<Rightarrow> string" where
  "cell_str Cell_None = ''None''"
| "cell_str Cell_NaN = ''nan''"
| "cell_str (Text s) = s"

text \<open>
  The pattern \<^verbatim>\<open>f"'{x}'" if x else 'NULL'\<close>: a falsy value is written as the keyword
  \<^verbatim>\<open>NULL\<close> (\<open>None\<close>), any other is put between quotes (\<open>Some\<close> of the text that goes
  between them).
\<close>

definition quoted_or_null :: "cell \<Rightarrow> string option" where
  "quoted_or_null x = (if cell_truthy x then Some (cell_str x) else None)"

text \<open>
  \<^verbatim>\<open>None if x == "(None)" else x\<close>, on the choice of the Default column.
\<close>

definition none_choice :: "cell \<Rightarrow> cell" where
  "none_choice x = (if x = Text ''(None)'' then Cell_None else x)"

subsection \<open>Texts put between quotes\<close>

text \<open>
  The designer writes \<^verbatim>\<open>'{x}'\<close> with the text as it is. What the database reads
  there is its own: the text itself when it holds no quote and no backslash, one
  quote character for two in a row, and when a quote of the text ends the literal
  early, whatever the rest then means, which for ordinary text is a syntax error. The
  reading is the parameter \<open>lit\<close> of the designer's handlers: \<open>lit t\<close> is the value the
  database reads for the literal made from \<open>t\<close>, and \<open>None\<close> when it rejects the
  statement. A statement is executed when each of its literals is read; a rejected
  statement raises in the session, \<^verbatim>\<open>execute_query\<close> catches the exception, and the
  table stays as it was.
\<close>

type_synonym reader = "string \<Rightarrow> string option"

text \<open>A value written as a quoted text or as the keyword \<^verbatim>\<open>NULL\<close>.\<close>

definition read_opt :: "reader \<Rightarrow> string option \<Rightarrow> string option option" where
  "read_opt lit x = (case x of None \<Rightarrow> Some None | Some t \<Rightarrow> map_option Some (lit t))"

subsection \<open>Schema Registry: the table \<^verbatim>\<open>target_schemas\<close>\<close>

record target_schema =
  schema_id :: nat
  table_name :: string
  column_name :: string
  data_type :: string
  nullable :: bool
  default_value :: "string option"
  description :: "string option"
  active :: bool
  created_timestamp :: int
  updated_timestamp :: int

type_synonym schemas = "target_schema list"

text \<open>
  The designer's \<^verbatim>\<open>INSERT INTO target_schemas (table_name, column_name, data_type,
  nullable, default_value, description, active)\<close> with the three texts and the two
  optional texts between quotes. \<open>read_columns\<close> is the database reading the five of
  them, \<open>None\<close> when it rejects one. The columns the statement does not list
  (\<open>schema_id\<close> and the two timestamps) come from the table's DDL, which is the
  parameter \<open>ddl\<close>: the row of defaults for an insert into the table as it stands.
\<close>

definition read_columns ::
  "reader \<Rightarrow> string \<Rightarrow> string \<Rightarrow> string \<Rightarrow> string option \<Rightarrow> string option \<Rightarrow>
     (string \<times> string \<times> string \<times> string option \<times> string option) option" where
  "read_columns lit tn cn dt dv ds =
     (case lit tn of None \<Rightarrow> None | Some tn' \<Rightarrow>
      case lit cn of None \<Rightarrow> None | Some cn' \<Rightarrow>
      case lit dt of None \<Rightarrow> None | Some dt' \<Rightarrow>
      case read_opt lit dv of None \<Rightarrow> None | Some dv' \<Rightarrow>
      case read_opt lit ds of None \<Rightarrow> None | Some ds' \<Rightarrow>
        Some (tn', cn', dt', dv', ds'))"

definition insert_target_schema ::
  "reader \<Rightarrow> (schemas \<Rightarrow> target_schema) \<Rightarrow> string \<Rightarrow> string \<Rightarrow> string \<Rightarrow> bool \<Rightarrow>
     string option \<Rightarrow> string option \<Rightarrow> schemas \<Rightarrow> schemas" where
  "insert_target_schema lit ddl tn cn dt nl dv ds tbl =
     (case read_columns lit tn cn dt dv ds of
        None \<Rightarrow> tbl
      | Some (tn', cn', dt', dv', ds') \<Rightarrow>
          tbl @ [(ddl tbl)\<lparr>table_name := tn', column_name := cn', data_type := dt',
                           nullable := nl, default_value := dv', description := ds',
                           active := True\<rparr>])"

subsubsection \<open>Creating a table\<close>






subsubsection \<open>Editing the columns of a table\<close>

text \<open>
  The designer shows the active columns of the selected table, by id, in a data
  editor without the nullable column. A row the user added has no id.
\<close>

record editor_row =
  row_ID :: "nat option"
  row_Column_Name :: cell
  row_Data_Type :: cell
  row_Default :: cell
  row_Description :: cell

definition schema_df :: "string \<Rightarrow> schemas \<Rightarrow> schemas" where
  "schema_df selected_table tbl =
     sort_key schema_id [r \<leftarrow> tbl. table_name r = selected_table \<and> active r]"

text \<open>A stored value in a frame: SQL \<^verbatim>\<open>NULL\<close> is \<^verbatim>\<open>None\<close>.\<close>

definition cell_of :: "string option \<Rightarrow> cell" where
  "cell_of x = (case x of None \<Rightarrow> Cell_None | Some s \<Rightarrow> Text s)"

definition edit_df :: "string \<Rightarrow> schemas \<Rightarrow> editor_row list" where
  "edit_df selected_table tbl =
     map (\<lambda>r. \<lparr>row_ID = Some (schema_id r), row_Column_Name = Text (column_name r),
               row_Data_Type = Text (data_type r), row_Default = cell_of (default_value r),
               row_Description = cell_of (description r)\<rparr>)
       (schema_df selected_table tbl)"

text \<open>\<^verbatim>\<open>deleted_ids = original_ids - edited_ids\<close>, the ids shown and no longer there.\<close>

definition deleted_ids :: "editor_row list \<Rightarrow> editor_row list \<Rightarrow> nat list" where
  "deleted_ids edit edited =
     remdups (filter (\<lambda>i. Some i \<notin> set (map row_ID edited)) (List.map_filter row_ID edit))"

text \<open>
  \<^verbatim>\<open>UPDATE target_schemas SET active = FALSE, updated_timestamp = CURRENT_TIMESTAMP()
  WHERE schema_id = sid\<close>, which carries no text.
\<close>

definition deactivate :: "int \<Rightarrow> nat \<Rightarrow> schemas \<Rightarrow> schemas" where
  "deactivate now sid tbl =
     map (\<lambda>r. if schema_id r = sid then r\<lparr>active := False, updated_timestamp := now\<rparr> else r) tbl"

definition apply_deletions :: "int \<Rightarrow> editor_row list \<Rightarrow> editor_row list \<Rightarrow> schemas \<Rightarrow> schemas" where
  "apply_deletions now edit edited tbl = fold (deactivate now) (deleted_ids edit edited) tbl"

text \<open>
  \<^verbatim>\<open>UPDATE target_schemas SET column_name = '..', data_type = '..', nullable = TRUE,
  default_value = .., description = .., updated_timestamp = CURRENT_TIMESTAMP()
  WHERE schema_id = sid\<close>: \<open>read_update\<close> is the database reading its texts, \<open>None\<close> when
  it rejects one, and \<open>set_column\<close> is the statement executed.
\<close>

definition read_update ::
  "reader \<Rightarrow> string \<Rightarrow> string \<Rightarrow> string option \<Rightarrow> string option \<Rightarrow>
     (string \<times> string \<times> string option \<times> string option) option" where
  "read_update lit cn dt dv ds =
     (case lit cn of None \<Rightarrow> None | Some cn' \<Rightarrow>
      case lit dt of None \<Rightarrow> None | Some dt' \<Rightarrow>
      case read_opt lit dv of None \<Rightarrow> None | Some dv' \<Rightarrow>
      case read_opt lit ds of None \<Rightarrow> None | Some ds' \<Rightarrow>
        Some (cn', dt', dv', ds'))"

definition set_column ::
  "int \<Rightarrow> nat \<Rightarrow> string \<times> string \<times> string option \<times> string option \<Rightarrow> schemas \<Rightarrow> schemas" where
  "set_column now sid vals tbl =
     (case vals of (cn', dt', dv', ds') \<Rightarrow>
        map (\<lambda>r. if schema_id r = sid
                 then r\<lparr>column_name := cn', data_type := dt', nullable := True,
                        default_value := dv', description := ds', updated_timestamp := now\<rparr>
                 else r) tbl)"

definition update_column ::
  "reader \<Rightarrow> int \<Rightarrow> nat \<Rightarrow> string \<Rightarrow> string \<Rightarrow> string option \<Rightarrow> string option \<Rightarrow>
     schemas \<Rightarrow> schemas" where
  "update_column lit now sid cn dt dv ds tbl =
     (case read_update lit cn dt dv ds of
        None \<Rightarrow> tbl
      | Some vals \<Rightarrow> set_column now sid vals tbl)"

text \<open>The comparison of one editable cell: two missing cells are equal.\<close>

definition cell_differs :: "cell \<Rightarrow> cell \<Rightarrow> bool" where
  "cell_differs orig_val new_val =
     (if cell_isna orig_val \<and> cell_isna new_val then False else orig_val \<noteq> new_val)"

definition has_changes :: "editor_row \<Rightarrow> editor_row \<Rightarrow> bool" where
  "has_changes original_row row =
     (cell_differs (row_Column_Name original_row) (row_Column_Name row)
      \<or> cell_differs (row_Data_Type original_row) (row_Data_Type row)
      \<or> cell_differs (row_Default original_row) (row_Default row)
      \<or> cell_differs (row_Description original_row) (row_Description row))"

record save_state =
  s_tbl :: schemas
  changes_made :: bool
  additions_made :: bool
  raised :: "string option"

text \<open>
  The branch for a row that is new: its \<^verbatim>\<open>INSERT\<close> is issued when it has a column
  name, and \<^verbatim>\<open>additions_made\<close> is set whether the database took it or not.
\<close>

definition save_new_row ::
  "reader \<Rightarrow> (schemas \<Rightarrow> target_schema) \<Rightarrow> string \<Rightarrow> editor_row \<Rightarrow> save_state \<Rightarrow>
     save_state" where
  "save_new_row lit ddl selected_table row st =
     (if \<not> cell_isna (row_Column_Name row) \<and> cell_truthy (row_Column_Name row)
      then
        let processed_default = none_choice (row_Default row)
        in st\<lparr>s_tbl := insert_target_schema lit ddl selected_table
                          (upper (cell_str (row_Column_Name row)))
                          (cell_str (row_Data_Type row)) True
                          (quoted_or_null processed_default)
                          (quoted_or_null (row_Description row)) (s_tbl st),
              additions_made := True\<rparr>
      else st)"

text \<open>
  The body of the loop over the edited rows. In the branch for an existing row,
  \<^verbatim>\<open>row["Column Name"].upper()\<close> raises on a missing name; nothing catches it, so the
  rows after it are not reached. \<^verbatim>\<open>changes_made\<close> is set whether the database took
  the \<^verbatim>\<open>UPDATE\<close> or not.
\<close>

definition save_row ::
  "reader \<Rightarrow> (schemas \<Rightarrow> target_schema) \<Rightarrow> int \<Rightarrow> string \<Rightarrow> editor_row list \<Rightarrow>
     editor_row \<Rightarrow> save_state \<Rightarrow> save_state" where
  "save_row lit ddl now selected_table edit row st =
     (if raised st \<noteq> None then st
      else
        case row_ID row of
          None \<Rightarrow> save_new_row lit ddl selected_table row st
        | Some row_id \<Rightarrow>
            if Some row_id \<notin> set (map row_ID edit)
            then save_new_row lit ddl selected_table row st
            else
              (case find (\<lambda>r. row_ID r = Some row_id) edit of
                 None \<Rightarrow> st
               | Some original_row \<Rightarrow>
                   if has_changes original_row row
                   then
                     (case row_Column_Name row of
                        Text cn \<Rightarrow>
                          let new_default = none_choice (row_Default row)
                          in st\<lparr>s_tbl := update_column lit now row_id (upper cn)
                                            (cell_str (row_Data_Type row))
                                            (quoted_or_null new_default)
                                            (quoted_or_null (row_Description row)) (s_tbl st),
                                changes_made := True\<rparr>
                      | _ \<Rightarrow> st\<lparr>raised := Some ''AttributeError''\<rparr>)
                   else st))"

text \<open>
  The handler of the Save Changes button: deletions, then the loop, then the sync of
  the physical table when anything was written. It returns the table and either the
  exception that ended it or the message shown.
\<close>

definition save_changes ::
  "reader \<Rightarrow> (schemas \<Rightarrow> target_schema) \<Rightarrow> ('v \<Rightarrow> string) \<Rightarrow>
     (schemas \<Rightarrow> string \<Rightarrow> 'v collected) \<Rightarrow> string \<Rightarrow> int \<Rightarrow> string \<Rightarrow> editor_row list \<Rightarrow>
     editor_row list \<Rightarrow> schemas \<Rightarrow> schemas \<times> (string + ui_msg)" where
  "save_changes lit ddl py_str proc DB_SILVER now selected_table edit edited tbl =
     (let deletions_made = (deleted_ids edit edited \<noteq> []);
          st = fold (save_row lit ddl now selected_table edit) edited
                 \<lparr>s_tbl = apply_deletions now edit edited tbl, changes_made = False,
                  additions_made = False, raised = None\<rparr>
      in case raised st of
           Some e \<Rightarrow> (s_tbl st, Inl e)
         | None \<Rightarrow>
             if changes_made st \<or> deletions_made \<or> additions_made st
             then (s_tbl st,
                   Inr (sync_classify
                          (execute_procedure py_str (proc (s_tbl st))
                             (''CALL '' @ DB_SILVER @ ''.sync_table_with_metadata('' @ [CHR 39]
                                @ selected_table @ [CHR 39] @ '')''))))
             else (s_tbl st, Inr (st_info ''No changes detected'')))"


subsubsection \<open>A reader\<close>

text \<open>
  The reading of a text between quotes by the rule every SQL dialect shares: two
  quotes in a row are one quote character, and a quote that stands alone ends the
  literal before its closing quote, after which ordinary text is no statement. It
  stands for the database in the runs on concrete forms below.
\<close>

fun sql_literal :: reader where
  "sql_literal [] = Some []"
| "sql_literal [c] = (if c = CHR 39 then None else Some [c])"
| "sql_literal (c # d # cs) =
     (if c = CHR 39
      then (if d = CHR 39 then map_option ((#) c) (sql_literal cs) else None)
      else map_option ((#) c) (sql_literal (d # cs)))"

subsection \<open>Whitespace\<close>

text \<open>
  \<^verbatim>\<open>str.strip()\<close>: the ASCII characters Python counts as whitespace are removed from
  both ends.
\<close>

definition is_space :: "char \<Rightarrow> bool" where
  "is_space c = ((of_char c :: nat) \<in> {9, 10, 11, 12, 13, 28, 29, 30, 31, 32})"

definition strip :: "string \<Rightarrow> string" where
  "strip s = rev (dropWhile is_space (rev (dropWhile is_space s)))"

text \<open>\<^verbatim>\<open>str(x)\<close> on a cell that holds text or nothing.\<close>

definition str_cell :: "string option \<Rightarrow> string" where
  "str_cell x = (case x of None \<Rightarrow> ''None'' | Some s \<Rightarrow> s)"

text \<open>\<^verbatim>\<open>sep.join(xs)\<close>\<close>

fun join :: "string \<Rightarrow> string list \<Rightarrow> string" where
  "join sep [] = []"
| "join sep [x] = x"
| "join sep (x # y # ys) = x @ sep @ join sep (y # ys)"

subsection \<open>Mapping Store: the table \<^verbatim>\<open>field_mappings\<close>\<close>

record field_mapping =
  mapping_id :: nat
  source_table :: string
  source_field :: string
  target_table :: string
  target_column :: string
  mapping_method :: string
  confidence_score :: real
  approved :: bool
  approved_by :: "string option"
  approved_timestamp :: "int option"
  transformation_logic :: "string option"
  fm_description :: "string option"
  fm_created_timestamp :: int
  fm_updated_timestamp :: int
  tpa :: "string option"

type_synonym mappings = "field_mapping list"

subsubsection \<open>Manual Mapping tab\<close>

record manual_mapping_form =
  form_source_field :: string
  form_source_table :: string
  form_target_table :: string
  form_target_column :: string
  form_transformation :: string
  form_description :: string

text \<open>
  The submit handler of \<^verbatim>\<open>manual_mapping_form\<close>. The statement lists source_field,
  source_table, target_table, target_column, mapping_method, confidence_score,
  transformation_logic, description and approved; the other columns are the DDL's
  (\<open>ddl\<close>). Quotes are doubled inside the literals, so the stored text is the text
  entered, in upper case for the four names. The handler issues the insert with no
  query before it.
\<close>

definition manual_mapping_submit ::
  "(mappings \<Rightarrow> field_mapping) \<Rightarrow> manual_mapping_form \<Rightarrow> mappings \<Rightarrow> mappings \<times> ui_msg" where
  "manual_mapping_submit ddl form tbl =
     (if form_source_field form = [] \<or> form_target_table form = []
         \<or> form_target_column form = []
      then (tbl, st_error ''Source field, target table, and target column are required'')
      else
        (tbl @ [(ddl tbl)\<lparr>source_field := upper (form_source_field form),
                          source_table := upper (form_source_table form),
                          target_table := upper (form_target_table form),
                          target_column := upper (form_target_column form),
                          mapping_method := ''MANUAL'',
                          confidence_score := 1,
                          transformation_logic :=
                            (if form_transformation form \<noteq> []
                             then Some (form_transformation form) else None),
                          fm_description :=
                            (if form_description form \<noteq> []
                             then Some (form_description form) else None),
                          approved := True\<rparr>],
         st_success (''Created mapping: '' @ form_source_field form @ '' ''
                      @ [CHR 0xE2, CHR 0x86, CHR 0x92] @ '' '' @ form_target_table form
                      @ ''.'' @ form_target_column form)))"

subsubsection \<open>View Mappings tab\<close>

text \<open>The sort choices of the tab and the \<^verbatim>\<open>ORDER BY\<close> each stands for.\<close>

datatype sort_option =
  Target_Table_and_Column | Source_Field | Confidence_High_to_Low
  | Created_Newest_First | Created_Oldest_First | Mapping_Method

fun order_by :: "sort_option \<Rightarrow> mappings \<Rightarrow> mappings" where
  "order_by Target_Table_and_Column = sort_key (\<lambda>r. (target_table r, target_column r))"
| "order_by Source_Field = sort_key source_field"
| "order_by Confidence_High_to_Low = sort_key (\<lambda>r. - confidence_score r)"
| "order_by Created_Newest_First = sort_key (\<lambda>r. - fm_created_timestamp r)"
| "order_by Created_Oldest_First = sort_key fm_created_timestamp"
| "order_by Mapping_Method = sort_key mapping_method"

text \<open>
  \<^verbatim>\<open>mappings_query\<close>: the optional filters on target table and on the selected TPA,
  then the order.
\<close>

definition mappings_query ::
  "string \<Rightarrow> string option \<Rightarrow> sort_option \<Rightarrow> mappings \<Rightarrow> mappings" where
  "mappings_query selected_filter_table selected_tpa selected_sort tbl =
     order_by selected_sort
       [r \<leftarrow> tbl.
          (if selected_filter_table \<noteq> ''(All Tables)''
           then target_table r = selected_filter_table else True)
          \<and> (case selected_tpa of None \<Rightarrow> True
              | Some t \<Rightarrow> if t \<noteq> [] then tpa r = Some t else True)]"

text \<open>
  \<^verbatim>\<open>duplicated(subset=['SOURCE_TABLE', 'SOURCE_FIELD', 'TARGET_TABLE', 'TARGET_COLUMN'],
  keep=False)\<close>: a row is marked when its four values occur in more than one row of the
  frame.
\<close>

definition duplicate_key :: "field_mapping \<Rightarrow> string \<times> string \<times> string \<times> string" where
  "duplicate_key r = (source_table r, source_field r, target_table r, target_column r)"

definition IS_DUPLICATE :: "mappings \<Rightarrow> bool list" where
  "IS_DUPLICATE df =
     map (\<lambda>r. 1 < length [x \<leftarrow> df. duplicate_key x = duplicate_key r]) df"

text \<open>The status shown for a row (the word, without its coloured sign).\<close>

definition get_status_indicator :: "bool \<Rightarrow> field_mapping \<Rightarrow> string" where
  "get_status_indicator is_dup r =
     (if is_dup then ''DUPLICATE'' else if \<not> approved r then ''PENDING'' else ''APPROVED'')"

text \<open>
  A row of the editor of the tab: the columns the save handler reads. A row added in
  the editor has no id and no tick.
\<close>

record mapping_row =
  STATUS :: string
  MAPPING_ID :: "nat option"
  APPROVED :: "bool option"
  TRANSFORMATION_LOGIC :: "string option"
  DESCRIPTION :: "string option"

definition display_df :: "mappings \<Rightarrow> mapping_row list" where
  "display_df df =
     map (\<lambda>(is_dup, r).
            \<lparr>STATUS = get_status_indicator is_dup r, MAPPING_ID = Some (mapping_id r),
             APPROVED = Some (approved r), TRANSFORMATION_LOGIC = transformation_logic r,
             DESCRIPTION = fm_description r\<rparr>)
       (zip (IS_DUPLICATE df) df)"

text \<open>\<^verbatim>\<open>bool(row.get('APPROVED', False))\<close>\<close>

definition approved_value :: "mapping_row \<Rightarrow> bool" where
  "approved_value row = (case APPROVED row of None \<Rightarrow> False | Some b \<Rightarrow> b)"

text \<open>
  The text of an edited cell as it goes into the statement: \<^verbatim>\<open>NULL\<close> when the cell is
  missing, blank or the text \<open>nan\<close>.
\<close>

definition cell_sql :: "string option \<Rightarrow> string option" where
  "cell_sql x =
     (case x of None \<Rightarrow> None
      | Some s \<Rightarrow> if strip s \<noteq> [] \<and> s \<noteq> ''nan'' then Some s else None)"

text \<open>\<^verbatim>\<open>DELETE FROM field_mappings WHERE mapping_id = k\<close>\<close>

definition delete_mapping :: "nat \<Rightarrow> mappings \<Rightarrow> mappings" where
  "delete_mapping k tbl = [r \<leftarrow> tbl. mapping_id r \<noteq> k]"

text \<open>The three \<^verbatim>\<open>UPDATE field_mappings ... WHERE mapping_id = k\<close> of the handler.\<close>

definition update_approve ::
  "int \<Rightarrow> string \<Rightarrow> string option \<Rightarrow> string option \<Rightarrow> nat \<Rightarrow> mappings \<Rightarrow> mappings" where
  "update_approve now current_user tlogic descr k tbl =
     map (\<lambda>r. if mapping_id r = k
              then r\<lparr>transformation_logic := tlogic, fm_description := descr, approved := True,
                     approved_by := Some current_user, approved_timestamp := Some now,
                     fm_updated_timestamp := now\<rparr>
              else r) tbl"

definition update_unapprove ::
  "int \<Rightarrow> string option \<Rightarrow> string option \<Rightarrow> nat \<Rightarrow> mappings \<Rightarrow> mappings" where
  "update_unapprove now tlogic descr k tbl =
     map (\<lambda>r. if mapping_id r = k
              then r\<lparr>transformation_logic := tlogic, fm_description := descr, approved := False,
                     approved_by := None, approved_timestamp := None,
                     fm_updated_timestamp := now\<rparr>
              else r) tbl"

definition update_texts ::
  "int \<Rightarrow> string option \<Rightarrow> string option \<Rightarrow> nat \<Rightarrow> mappings \<Rightarrow> mappings" where
  "update_texts now tlogic descr k tbl =
     map (\<lambda>r. if mapping_id r = k
              then r\<lparr>transformation_logic := tlogic, fm_description := descr,
                     fm_updated_timestamp := now\<rparr>
              else r) tbl"

text \<open>
  One turn of the loop \<^verbatim>\<open>for idx in range(min(len(display_df), len(edited_df)))\<close>: the
  rows at position \<open>idx\<close> of the two frames are compared, and the statement is keyed
  by the id of the edited one. \<open>user_name\<close> is \<^verbatim>\<open>st.user.user_name\<close>, \<open>None\<close> when
  reading it raises. A statement whose id is missing matches no row.
\<close>

definition save_mapping_row ::
  "int \<Rightarrow> string option \<Rightarrow> mapping_row \<times> mapping_row \<Rightarrow> mappings \<times> bool \<Rightarrow> mappings \<times> bool" where
  "save_mapping_row now user_name pair st =
     (case pair of (original_row, edited_row) \<Rightarrow>
        let approved_changed = (approved_value edited_row \<noteq> approved_value original_row);
            transformation_changed =
              (str_cell (TRANSFORMATION_LOGIC edited_row)
                 \<noteq> str_cell (TRANSFORMATION_LOGIC original_row));
            description_changed =
              (str_cell (DESCRIPTION edited_row) \<noteq> str_cell (DESCRIPTION original_row))
        in if approved_changed \<or> transformation_changed \<or> description_changed
           then
             let tlogic = cell_sql (TRANSFORMATION_LOGIC edited_row);
                 descr = cell_sql (DESCRIPTION edited_row);
                 current_user = (case user_name of None \<Rightarrow> ''UNKNOWN'' | Some u \<Rightarrow> u);
                 stmt =
                   (if approved_changed \<and> approved_value edited_row
                    then update_approve now current_user tlogic descr
                    else if approved_changed \<and> \<not> approved_value edited_row
                    then update_unapprove now tlogic descr
                    else update_texts now tlogic descr)
             in (case MAPPING_ID edited_row of
                   None \<Rightarrow> (fst st, True)
                 | Some k \<Rightarrow> (stmt k (fst st), True))
           else st)"

text \<open>
  The handler of the Save Changes button of the tab: the ids shown and no longer in
  the editor are deleted, then the loop runs over the positions both frames have.
\<close>

definition deleted_mapping_ids :: "mapping_row list \<Rightarrow> mapping_row list \<Rightarrow> nat list" where
  "deleted_mapping_ids display edited =
     remdups (filter (\<lambda>k. Some k \<notin> set (map MAPPING_ID edited))
                (List.map_filter MAPPING_ID display))"

definition save_mappings ::
  "int \<Rightarrow> string option \<Rightarrow> mapping_row list \<Rightarrow> mapping_row list \<Rightarrow> mappings \<Rightarrow>
     mappings \<times> bool" where
  "save_mappings now user_name display edited tbl =
     (let deleted = deleted_mapping_ids display edited
      in fold (save_mapping_row now user_name) (zip display edited)
           (fold delete_mapping deleted tbl, deleted \<noteq> []))"

subsubsection \<open>Test Mappings tab\<close>

text \<open>
  \<^verbatim>\<open>SELECT source_field, source_table, target_column, transformation_logic FROM
  field_mappings WHERE target_table = .. AND approved = TRUE ORDER BY target_column\<close>
\<close>

definition mappings_test_df ::
  "string \<Rightarrow> mappings \<Rightarrow> (string \<times> string \<times> string \<times> string option) list" where
  "mappings_test_df selected_test_table tbl =
     map (\<lambda>r. (source_field r, source_table r, target_column r, transformation_logic r))
       (sort_key target_column
          [r \<leftarrow> tbl. target_table r = selected_test_table \<and> approved r])"

definition select_clause :: "string \<times> string \<times> string \<times> string option \<Rightarrow> string" where
  "select_clause mapping =
     (case mapping of (src_field, src_table, tgt_column, transformation) \<Rightarrow>
        (case transformation of
           Some t \<Rightarrow>
             if strip t \<noteq> [] then t @ '' AS '' @ tgt_column
             else ''RAW_DATA:'' @ src_field @ ''::VARCHAR AS '' @ tgt_column
         | None \<Rightarrow> ''RAW_DATA:'' @ src_field @ ''::VARCHAR AS '' @ tgt_column))"

text \<open>
  The preview statement (line breaks of the source text written as blanks);
  \<open>sample_rows\<close> is the decimal text of the slider's value.
\<close>

definition test_query ::
  "string \<Rightarrow> string \<Rightarrow> (string \<times> string \<times> string \<times> string option) list \<Rightarrow> string" where
  "test_query DB_BRONZE sample_rows df =
     ''SELECT '' @ join '', '' (map select_clause df) @ '' FROM '' @ DB_BRONZE
       @ ''.RAW_DATA_TABLE WHERE RAW_DATA IS NOT NULL LIMIT '' @ sample_rows"

text \<open>
  What the tab shows after the Test Mappings button: nothing to test, or the approved
  mappings, the statement and what the session returns for it (\<open>run\<close>).
\<close>

datatype 'r preview =
  No_Approved_Mappings
  | Preview "(string \<times> string \<times> string \<times> string option) list" string 'r

definition test_mappings ::
  "(string \<Rightarrow> 'r) \<Rightarrow> string \<Rightarrow> string \<Rightarrow> string \<Rightarrow> mappings \<Rightarrow> 'r preview" where
  "test_mappings run DB_BRONZE sample_rows selected_test_table tbl =
     (let df = mappings_test_df selected_test_table tbl
      in if df = [] then No_Approved_Mappings
         else Preview df (test_query DB_BRONZE sample_rows df)
                (run (test_query DB_BRONZE sample_rows df)))"

subsection \<open>Transformation Engine: the MAP step\<close>

text \<open>
  Modelled from the spec: the MAP step of the Transformation Engine (section 4.3). The
  engine is the stored procedure \<^verbatim>\<open>transform_bronze_to_silver\<close>; the application
  only calls it, and its body is not among the sources. In the spec's words: for each
  row, for each approved mapping targeting the target table, the source field's value
  is extracted and either cast to the target column's type or, when the mapping has a
  transformation expression, the expression is evaluated; a column with no approved
  mapping receives its declared default, or null when it is nullable, and a row with a
  non-nullable column that has neither is rejected with the detail \<open>unmapped required
  column\<close>. A source row is a map from field names to values, \<open>None\<close> is null, and the
  cast, the evaluation of an expression and the value of a default are parameters.
\<close>

definition approved_mappings_for :: "string \<Rightarrow> mappings \<Rightarrow> mappings" where
  "approved_mappings_for target tbl = [m \<leftarrow> tbl. approved m \<and> target_table m = target]"

definition map_value ::
  "(string \<Rightarrow> 'v option \<Rightarrow> 'v option) \<Rightarrow> (string \<Rightarrow> (string \<rightharpoonup> 'v) \<Rightarrow> 'v option) \<Rightarrow>
     (string \<rightharpoonup> 'v) \<Rightarrow> field_mapping \<Rightarrow> 'v option" where
  "map_value cast eval src m =
     (case transformation_logic m of
        None \<Rightarrow> cast (target_column m) (src (source_field m))
      | Some e \<Rightarrow> eval e src)"

definition map_row ::
  "(string \<Rightarrow> 'v option \<Rightarrow> 'v option) \<Rightarrow> (string \<Rightarrow> (string \<rightharpoonup> 'v) \<Rightarrow> 'v option) \<Rightarrow>
     (string \<Rightarrow> 'v option) \<Rightarrow> schemas \<Rightarrow> mappings \<Rightarrow> string \<Rightarrow> (string \<rightharpoonup> 'v) \<Rightarrow>
     string + (string \<times> 'v option) list" where
  "map_row cast eval dflt schema store target src =
     (let mapped = fold (\<lambda>m row. row(target_column m \<mapsto> map_value cast eval src m))
                     (approved_mappings_for target store) Map.empty;
          cols = [c \<leftarrow> schema. table_name c = target \<and> active c]
      in if list_ex (\<lambda>c. mapped (column_name c) = None \<and> default_value c = None
                          \<and> \<not> nullable c) cols
         then Inl ''unmapped required column''
         else Inr (map (\<lambda>c. (column_name c,
                              case mapped (column_name c) of
                                Some v \<Rightarrow> v
                              | None \<Rightarrow> (case default_value c of
                                           Some d \<Rightarrow> dflt d
                                         | None \<Rightarrow> None)))
                     cols))"

subsection \<open>Rules Store: the table \<^verbatim>\<open>transformation_rules\<close>\<close>

record transformation_rule =
  rule_id :: string
  rule_name :: string
  rule_type :: string
  rule_target_table :: "string option"
  rule_target_column :: "string option"
  rule_logic :: string
  priority :: int
  error_action :: string
  rule_active :: bool
  rule_created_timestamp :: int
  rule_description :: "string option"

type_synonym rules = "transformation_rule list"

text \<open>
  The listing of the All Transformation Rules tab: the three optional filters, then
  \<^verbatim>\<open>ORDER BY priority, created_timestamp DESC\<close>.
\<close>

definition rules_df :: "string \<Rightarrow> string \<Rightarrow> string \<Rightarrow> rules \<Rightarrow> rules" where
  "rules_df filter_type filter_table filter_active tbl =
     sort_key (\<lambda>r. (priority r, - rule_created_timestamp r))
       [r \<leftarrow> tbl.
          (if filter_type \<noteq> ''(All Types)'' then rule_type r = filter_type else True)
          \<and> (if filter_table \<noteq> ''(All Tables)'' then rule_target_table r = Some filter_table
              else True)
          \<and> (if filter_active = ''Active Only'' then rule_active r
              else if filter_active = ''Inactive Only'' then \<not> rule_active r
              else True)]"

text \<open>
  The listing of the Test Rules tab: the active rules of the table and the global
  ones, \<^verbatim>\<open>ORDER BY priority\<close>.
\<close>

definition rules_for_table_df :: "string \<Rightarrow> rules \<Rightarrow> rules" where
  "rules_for_table_df test_target_table tbl =
     sort_key priority
       [r \<leftarrow> tbl.
          (rule_target_table r = Some test_target_table \<or> rule_target_table r = None)
          \<and> rule_active r]"


subsection \<open>Rules Engine: the order of evaluation\<close>

text \<open>
  Modelled from the spec: the rule fetch and the order of evaluation of the Rules
  Engine (section 4.2). The engine runs inside the stored procedures the application
  calls; its body is not among the sources, which hold the two listings above only.
  In the spec's words: fetch all active rules where the target table matches the
  scope's table or is null, and the target column matches the scope's column or is
  null; sort by priority ascending then creation timestamp ascending; deduplication
  rules always run after all non-dedup rule types complete, regardless of declared
  priority, and within dedup rules priority order still applies (all non-dedup rules by
  priority, then all dedup rules by priority). The scope is a table and, optionally, a
  column.
\<close>

definition applicable_rules :: "string \<Rightarrow> string option \<Rightarrow> rules \<Rightarrow> rules" where
  "applicable_rules scope_table scope_column tbl =
     sort_key (\<lambda>r. (priority r, rule_created_timestamp r))
       [r \<leftarrow> tbl.
          rule_active r
          \<and> (rule_target_table r = Some scope_table \<or> rule_target_table r = None)
          \<and> (rule_target_column r = scope_column \<or> rule_target_column r = None)]"

definition is_dedup :: "transformation_rule \<Rightarrow> bool" where
  "is_dedup r = (rule_type r = ''DEDUPLICATION'')"

definition evaluation_order :: "string \<Rightarrow> string option \<Rightarrow> rules \<Rightarrow> rules" where
  "evaluation_order scope_table scope_column tbl =
     (let rs = applicable_rules scope_table scope_column tbl
      in [r \<leftarrow> rs. \<not> is_dedup r] @ [r \<leftarrow> rs. is_dedup r])"

subsection \<open>Sample data\<close>

text \<open>
  Concrete rows and inputs on which the handlers are run below: a session that answers
  four calls in the four possible ways, forms for a table ORDERS, a small CUSTOMER
  schema, three mappings, and two rules of equal priority with a deduplication rule.
\<close>

definition sample_session :: "string \<Rightarrow> string collected" where
  "sample_session q =
     (if q = ''CALL a()'' then Inl ''SQL compilation error''
      else if q = ''CALL b()'' then Inr []
      else if q = ''CALL c()'' then Inr [[''Successfully synced CUSTOMER'', ''x''], [''y'']]
      else Inr [[]])"

definition sample_ddl :: "schemas \<Rightarrow> target_schema" where
  "sample_ddl tbl =
     \<lparr>schema_id = Suc (length tbl), table_name = [], column_name = [], data_type = [],
      nullable = False, default_value = None, description = None, active = False,
      created_timestamp = 7, updated_timestamp = 7\<rparr>"


definition sample_column_ID :: target_schema where
  "sample_column_ID =
     \<lparr>schema_id = 1, table_name = ''CUSTOMER'', column_name = ''ID'',
      data_type = ''VARCHAR(20)'', nullable = False, default_value = None,
      description = None, active = True, created_timestamp = 1, updated_timestamp = 1\<rparr>"

definition sample_column_NAME :: target_schema where
  "sample_column_NAME =
     \<lparr>schema_id = 2, table_name = ''CUSTOMER'', column_name = ''NAME'',
      data_type = ''VARCHAR(50)'', nullable = False, default_value = None,
      description = None, active = True, created_timestamp = 1, updated_timestamp = 1\<rparr>"



text \<open>
  The editor's rows for the two columns; the first with its type changed, and with
  the description \<open>customer's id\<close>; a row the user added.
\<close>

definition sample_edit_ID :: editor_row where
  "sample_edit_ID =
     \<lparr>row_ID = Some 1, row_Column_Name = Text ''ID'', row_Data_Type = Text ''VARCHAR(20)'',
      row_Default = Cell_None, row_Description = Cell_None\<rparr>"

definition sample_edit_NAME :: editor_row where
  "sample_edit_NAME =
     \<lparr>row_ID = Some 2, row_Column_Name = Text ''NAME'', row_Data_Type = Text ''VARCHAR(50)'',
      row_Default = Cell_None, row_Description = Cell_None\<rparr>"


definition sample_edit_ID_apostrophe :: editor_row where
  "sample_edit_ID_apostrophe =
     sample_edit_ID\<lparr>row_Description := Text (''customer'' @ [CHR 39] @ ''s id'')\<rparr>"


definition sample_fm_ddl :: "mappings \<Rightarrow> field_mapping" where
  "sample_fm_ddl tbl =
     \<lparr>mapping_id = Suc (length tbl), source_table = [], source_field = [], target_table = [],
      target_column = [], mapping_method = [], confidence_score = 0, approved = False,
      approved_by = None, approved_timestamp = None, transformation_logic = None,
      fm_description = None, fm_created_timestamp = 7, fm_updated_timestamp = 7,
      tpa = None\<rparr>"

definition sample_mapping_form :: manual_mapping_form where
  "sample_mapping_form =
     \<lparr>form_source_field = ''cust_name'', form_source_table = ''RAW_DATA_TABLE'',
      form_target_table = ''CUSTOMER'', form_target_column = ''name'',
      form_transformation = [], form_description = []\<rparr>"

definition sample_mapping_A :: field_mapping where
  "sample_mapping_A =
     \<lparr>mapping_id = 1, source_table = ''RAW_DATA_TABLE'', source_field = ''CUST_ID'',
      target_table = ''CUSTOMER'', target_column = ''ID'', mapping_method = ''ML_PATTERN'',
      confidence_score = 1 / 2, approved = False, approved_by = None,
      approved_timestamp = None, transformation_logic = None, fm_description = None,
      fm_created_timestamp = 1, fm_updated_timestamp = 1, tpa = None\<rparr>"

definition sample_mapping_B :: field_mapping where
  "sample_mapping_B =
     \<lparr>mapping_id = 2, source_table = ''RAW_DATA_TABLE'', source_field = ''CUST_NAME'',
      target_table = ''CUSTOMER'', target_column = ''NAME'', mapping_method = ''MANUAL'',
      confidence_score = 1, approved = True, approved_by = Some ''ALICE'',
      approved_timestamp = Some 5, transformation_logic = None, fm_description = None,
      fm_created_timestamp = 2, fm_updated_timestamp = 5, tpa = None\<rparr>"

text \<open>The same source field and target column as \<open>sample_mapping_B\<close>, for another table.\<close>

definition sample_mapping_C :: field_mapping where
  "sample_mapping_C =
     sample_mapping_B\<lparr>mapping_id := 3, target_table := ''VENDOR'', fm_created_timestamp := 3\<rparr>"

text \<open>The rows the View Mappings editor shows for \<open>sample_mapping_A\<close> and \<open>sample_mapping_B\<close>.\<close>

definition sample_row_A :: mapping_row where
  "sample_row_A =
     \<lparr>STATUS = ''PENDING'', MAPPING_ID = Some 1, APPROVED = Some False,
      TRANSFORMATION_LOGIC = None, DESCRIPTION = None\<rparr>"

definition sample_row_B :: mapping_row where
  "sample_row_B =
     \<lparr>STATUS = ''APPROVED'', MAPPING_ID = Some 2, APPROVED = Some True,
      TRANSFORMATION_LOGIC = None, DESCRIPTION = None\<rparr>"

definition sample_rule_old :: transformation_rule where
  "sample_rule_old =
     \<lparr>rule_id = ''DQ001'', rule_name = ''id present'', rule_type = ''DATA_QUALITY'',
      rule_target_table = Some ''CUSTOMER'', rule_target_column = Some ''ID'',
      rule_logic = ''IS NOT NULL'', priority = 10, error_action = ''REJECT'',
      rule_active = True, rule_created_timestamp = 100, rule_description = None\<rparr>"

definition sample_rule_new :: transformation_rule where
  "sample_rule_new =
     \<lparr>rule_id = ''ST001'', rule_name = ''trim name'', rule_type = ''STANDARDIZATION'',
      rule_target_table = Some ''CUSTOMER'', rule_target_column = Some ''NAME'',
      rule_logic = ''TRIM'', priority = 10, error_action = ''LOG'',
      rule_active = True, rule_created_timestamp = 200, rule_description = None\<rparr>"

definition sample_rule_dedup :: transformation_rule where
  "sample_rule_dedup =
     \<lparr>rule_id = ''DD001'', rule_name = ''one row per id'', rule_type = ''DEDUPLICATION'',
      rule_target_table = Some ''CUSTOMER'', rule_target_column = None,
      rule_logic = ''ID'', priority = 1, error_action = ''QUARANTINE'',
      rule_active = True, rule_created_timestamp = 300, rule_description = None\<rparr>"

section \<open>Properties\<close>

subsection \<open>Substring test\<close>

lemma in_str_iff: "in_str sub s \<longleftrightarrow> (\<exists>ps ss. s = ps @ sub @ ss)"
proof (induction s)
  case Nil
  then show ?case by auto
next
  case (Cons c cs)
  show ?case
  proof
    assume "in_str sub (c # cs)"
    then consider "prefix sub (c # cs)" | "in_str sub cs" by auto
    then show "\<exists>ps ss. c # cs = ps @ sub @ ss"
    proof cases
      case 1
      then obtain ss where "c # cs = sub @ ss" by (auto simp: prefix_def)
      then have "c # cs = [] @ sub @ ss" by simp
      then show ?thesis by blast
    next
      case 2
      with Cons.IH obtain ps ss where "cs = ps @ sub @ ss" by blast
      then have "c # cs = (c # ps) @ sub @ ss" by simp
      then show ?thesis by blast
    qed
  next
    assume "\<exists>ps ss. c # cs = ps @ sub @ ss"
    then obtain ps ss where eq: "c # cs = ps @ sub @ ss" by blast
    show "in_str sub (c # cs)"
    proof (cases ps)
      case Nil
      with eq have "prefix sub (c # cs)" by (simp add: prefix_def)
      then show ?thesis by simp
    next
      case (Cons p ps')
      with eq have "cs = ps' @ sub @ ss" by simp
      with Cons.IH have "in_str sub cs" by blast
      then show ?thesis by simp
    qed
  qed
qed

subsection \<open>Outcome of the schema sync\<close>

text \<open>
  C7. The caller of the schema sync reports success exactly when the returned string
  contains \<open>Successfully\<close> or contains \<open>Recreated\<close>; any other string is reported as
  a warning that carries it.
\<close>

theorem sync_classify_success_iff:
  "is_success (sync_classify result) =
     ((\<exists>ps ss. result = ps @ ''Successfully'' @ ss) \<or> (\<exists>ps ss. result = ps @ ''Recreated'' @ ss))
   \<and> (sync_classify result = st_success (''Changes saved and table synced! '' @ result)
      \<or> sync_classify result
           = st_warning (''Changes saved to metadata, but table sync had issues: '' @ result))"
proof
  have "is_success (sync_classify result) =
          (in_str ''Successfully'' result \<or> in_str ''Recreated'' result)"
    by (simp add: sync_classify_def)
  then show "is_success (sync_classify result) =
     ((\<exists>ps ss. result = ps @ ''Successfully'' @ ss) \<or> (\<exists>ps ss. result = ps @ ''Recreated'' @ ss))"
    unfolding in_str_iff .
  show "sync_classify result = st_success (''Changes saved and table synced! '' @ result)
      \<or> sync_classify result
           = st_warning (''Changes saved to metadata, but table sync had issues: '' @ result)"
    by (simp add: sync_classify_def)
qed

text \<open>The sync reports \<open>Recreated table CUSTOMER\<close>: the caller shows success.\<close>

theorem sync_classify_success_iff_witness:
  "is_success (sync_classify ''Recreated table CUSTOMER'')"
proof -
  have "''Recreated table CUSTOMER'' = [] @ ''Recreated'' @ '' table CUSTOMER''" by simp
  then have "\<exists>ps ss. ''Recreated table CUSTOMER'' = ps @ ''Recreated'' @ ss" by blast
  with sync_classify_success_iff [of "''Recreated table CUSTOMER''"] show ?thesis by blast
qed

subsection \<open>Outcome of a procedure call\<close>

text \<open>
  C8. \<open>execute_procedure\<close> is a total function into strings, so every invocation
  yields an outcome string and no exception leaves it: when the session raises, the
  outcome is \<open>Error: \<close> followed by the exception's text; when it returns no rows, the
  outcome is \<open>Procedure executed successfully\<close>; otherwise it is the first value of the
  first row (and an \<open>Error: \<close> string when that row has no value, the index error
  being caught like any other).
\<close>

theorem execute_procedure_definitive:
  "(session_sql proc_call = Inl e \<longrightarrow>
      execute_procedure py_str session_sql proc_call = ''Error: '' @ e)
   \<and> (session_sql proc_call = Inr [] \<longrightarrow>
      execute_procedure py_str session_sql proc_call = ''Procedure executed successfully'')
   \<and> (session_sql proc_call = Inr ((v # vs) # rows) \<longrightarrow>
      execute_procedure py_str session_sql proc_call = py_str v)
   \<and> (session_sql proc_call = Inr ([] # rows) \<longrightarrow>
      execute_procedure py_str session_sql proc_call = ''Error: list index out of range'')"
  by (simp add: execute_procedure_def first_value_def)

text \<open>The four kinds of answer of \<open>sample_session\<close>.\<close>

theorem execute_procedure_definitive_witness:
  "sample_session ''CALL a()'' = Inl ''SQL compilation error''
   \<and> execute_procedure (\<lambda>v. v) sample_session ''CALL a()'' = ''Error: SQL compilation error''
   \<and> sample_session ''CALL b()'' = Inr []
   \<and> execute_procedure (\<lambda>v. v) sample_session ''CALL b()'' = ''Procedure executed successfully''
   \<and> sample_session ''CALL c()'' = Inr ([''Successfully synced CUSTOMER'', ''x''] # [[''y'']])
   \<and> execute_procedure (\<lambda>v. v) sample_session ''CALL c()'' = ''Successfully synced CUSTOMER''
   \<and> sample_session ''CALL d()'' = Inr ([] # [])
   \<and> execute_procedure (\<lambda>v. v) sample_session ''CALL d()'' = ''Error: list index out of range''"
proof -
  have a: "sample_session ''CALL a()'' = Inl ''SQL compilation error''"
    and b: "sample_session ''CALL b()'' = Inr []"
    and c: "sample_session ''CALL c()'' = Inr ([''Successfully synced CUSTOMER'', ''x''] # [[''y'']])"
    and d: "sample_session ''CALL d()'' = Inr ([] # [])"
    by (simp_all add: sample_session_def)
  from a execute_procedure_definitive
    [of sample_session "''CALL a()''" "''SQL compilation error''" "\<lambda>v. v"]
  have ra: "execute_procedure (\<lambda>v. v) sample_session ''CALL a()'' = ''Error: SQL compilation error''"
    by simp
  from b execute_procedure_definitive [of sample_session "''CALL b()''" _ "\<lambda>v. v"]
  have rb: "execute_procedure (\<lambda>v. v) sample_session ''CALL b()'' = ''Procedure executed successfully''"
    by blast
  from c execute_procedure_definitive
    [of sample_session "''CALL c()''" _ "\<lambda>v. v" "''Successfully synced CUSTOMER''" "[''x'']" "[[''y'']]"]
  have rc: "execute_procedure (\<lambda>v. v) sample_session ''CALL c()'' = ''Successfully synced CUSTOMER''"
    by blast
  from d execute_procedure_definitive
    [of sample_session "''CALL d()''" _ "\<lambda>v. v" _ _ "[]"]
  have rd: "execute_procedure (\<lambda>v. v) sample_session ''CALL d()'' = ''Error: list index out of range''"
    by blast
  from a b c d ra rb rc rd show ?thesis by blast
qed

subsection \<open>The reader\<close>

lemma sql_literal_no_quote: "CHR 39 \<notin> set s \<Longrightarrow> sql_literal s = Some s"
  by (induction s rule: sql_literal.induct) auto

subsection \<open>Creating a table\<close>

lemma read_columns_table:
  "read_columns lit tn cn dt dv ds = Some (tn', cn', dt', dv', ds') \<Longrightarrow> lit tn = Some tn'"
  by (simp add: read_columns_def split: option.splits)
















subsection \<open>Editing the columns of a table\<close>

lemma fold_deactivate:
  "fold (deactivate now) ids tbl =
     map (\<lambda>r. if schema_id r \<in> set ids then r\<lparr>active := False, updated_timestamp := now\<rparr> else r) tbl"
proof (induction ids arbitrary: tbl)
  case Nil
  then show ?case by simp
next
  case (Cons i ids)
  show ?case
    by (simp add: Cons.IH) (simp add: deactivate_def)
qed

lemma insert_target_schema_cases:
  "insert_target_schema lit ddl tn cn dt True dv ds tbl = tbl
   \<or> (\<exists>r. insert_target_schema lit ddl tn cn dt True dv ds tbl = tbl @ [r] \<and> nullable r)"
proof (cases "read_columns lit tn cn dt dv ds")
  case None
  then show ?thesis by (simp add: insert_target_schema_def)
next
  case (Some vals)
  obtain tn' cn' dt' dv' ds' where "vals = (tn', cn', dt', dv', ds')"
    by (cases vals) auto
  with Some show ?thesis by (simp add: insert_target_schema_def)
qed

lemma save_new_row_cases:
  "s_tbl (save_new_row lit ddl sel row st) = s_tbl st
   \<or> (\<exists>r. s_tbl (save_new_row lit ddl sel row st) = s_tbl st @ [r] \<and> nullable r)"
proof (cases "\<not> cell_isna (row_Column_Name row) \<and> cell_truthy (row_Column_Name row)")
  case False
  then have "save_new_row lit ddl sel row st = st"
    by (auto simp: save_new_row_def)
  then show ?thesis by simp
next
  case True
  let ?ins = "insert_target_schema lit ddl sel (upper (cell_str (row_Column_Name row)))
                (cell_str (row_Data_Type row)) True
                (quoted_or_null (none_choice (row_Default row)))
                (quoted_or_null (row_Description row)) (s_tbl st)"
  from True have "s_tbl (save_new_row lit ddl sel row st) = ?ins"
    unfolding save_new_row_def Let_def by simp
  with insert_target_schema_cases
    [of lit ddl sel "upper (cell_str (row_Column_Name row))" "cell_str (row_Data_Type row)"
        "quoted_or_null (none_choice (row_Default row))" "quoted_or_null (row_Description row)"
        "s_tbl st"]
  show ?thesis by simp
qed

lemma update_column_cases:
  "update_column lit now i cn dt dv ds tbl = tbl
   \<or> (\<exists>vals. update_column lit now i cn dt dv ds tbl = set_column now i vals tbl)"
proof (cases "read_update lit cn dt dv ds")
  case None
  then show ?thesis by (simp add: update_column_def)
next
  case (Some vals)
  then have "update_column lit now i cn dt dv ds tbl = set_column now i vals tbl"
    by (simp add: update_column_def)
  then show ?thesis by blast
qed

lemma save_row_cases:
  "s_tbl (save_row lit ddl now sel edit row st) = s_tbl st
   \<or> (\<exists>r. s_tbl (save_row lit ddl now sel edit row st) = s_tbl st @ [r] \<and> nullable r)
   \<or> (\<exists>i vals. row_ID row = Some i
         \<and> s_tbl (save_row lit ddl now sel edit row st) = set_column now i vals (s_tbl st))"
proof (cases "raised st \<noteq> None")
  case True
  then show ?thesis by (simp add: save_row_def)
next
  case False
  show ?thesis
  proof (cases "row_ID row")
    case None
    with False save_new_row_cases [of lit ddl sel row st] show ?thesis
      by (simp add: save_row_def)
  next
    case (Some i)
    show ?thesis
    proof (cases "Some i \<notin> set (map row_ID edit)")
      case True
      with False Some
      have "save_row lit ddl now sel edit row st = save_new_row lit ddl sel row st"
        by (simp add: save_row_def)
      with save_new_row_cases [of lit ddl sel row st] show ?thesis
        by auto
    next
      case known: False
      let ?st' = "save_row lit ddl now sel edit row st"
      have "s_tbl ?st' = s_tbl st
          \<or> (\<exists>vals. s_tbl ?st' = set_column now i vals (s_tbl st))"
      proof (cases "find (\<lambda>r. row_ID r = Some i) edit")
        case None
        with False Some known show ?thesis by (simp add: save_row_def)
      next
        case found: (Some original_row)
        show ?thesis
        proof (cases "has_changes original_row row")
          case nochange: False
          with False Some known found show ?thesis by (simp add: save_row_def)
        next
          case True
          show ?thesis
          proof (cases "row_Column_Name row")
            case Cell_None
            with False Some known found True show ?thesis by (simp add: save_row_def)
          next
            case Cell_NaN
            with False Some known found True show ?thesis by (simp add: save_row_def)
          next
            case (Text cn)
            with False \<open>row_ID row = Some i\<close> known found True
            have "s_tbl ?st' = update_column lit now i (upper cn) (cell_str (row_Data_Type row))
                    (quoted_or_null (none_choice (row_Default row)))
                    (quoted_or_null (row_Description row)) (s_tbl st)"
              by (simp add: save_row_def Let_def)
            with update_column_cases
              [of lit now i "upper cn" "cell_str (row_Data_Type row)"
                  "quoted_or_null (none_choice (row_Default row))"
                  "quoted_or_null (row_Description row)" "s_tbl st"]
            show ?thesis by auto
          qed
        qed
      qed
      with Some show ?thesis by blast
    qed
  qed
qed

lemma save_row_step:
  "\<exists>f added. s_tbl (save_row lit ddl now sel edit row st) = map f (s_tbl st) @ added
      \<and> (\<forall>r\<in>set added. nullable r)
      \<and> (\<forall>r. schema_id (f r) = schema_id r
              \<and> (f r = r \<or> (nullable (f r) \<and> Some (schema_id r) = row_ID row)))"
proof -
  let ?new = "s_tbl (save_row lit ddl now sel edit row st)"
  consider (same) "?new = s_tbl st"
    | (ins) r where "?new = s_tbl st @ [r]" "nullable r"
    | (upd) i vals where "row_ID row = Some i" "?new = set_column now i vals (s_tbl st)"
    using save_row_cases [of lit ddl now sel edit row st] by blast
  then show ?thesis
  proof cases
    case same
    then have "?new = map (\<lambda>r. r) (s_tbl st) @ []" by simp
    then show ?thesis by (intro exI [of _ "\<lambda>r. r"] exI [of _ "[]"]) simp
  next
    case ins
    then have "?new = map (\<lambda>r. r) (s_tbl st) @ [r]" by simp
    with ins(2) show ?thesis by (intro exI [of _ "\<lambda>r. r"] exI [of _ "[r]"]) simp
  next
    case upd
    obtain cn dt dv ds where vals: "vals = (cn, dt, dv, ds)" by (cases vals) auto
    let ?f = "\<lambda>r. if schema_id r = i
              then r\<lparr>column_name := cn, data_type := dt, nullable := True, default_value := dv,
                     description := ds, updated_timestamp := now\<rparr>
              else r"
    from upd vals have "?new = map ?f (s_tbl st) @ []" by (simp add: set_column_def)
    with upd(1) show ?thesis by (intro exI [of _ ?f] exI [of _ "[]"]) simp
  qed
qed

lemma save_rows_fold:
  "\<exists>f added. s_tbl (fold (save_row lit ddl now sel edit) rows st) = map f (s_tbl st) @ added
      \<and> (\<forall>r\<in>set added. nullable r)
      \<and> (\<forall>r. schema_id (f r) = schema_id r
              \<and> (f r = r \<or> (nullable (f r) \<and> Some (schema_id r) \<in> set (map row_ID rows))))"
proof (induction rows arbitrary: st)
  case Nil
  have "s_tbl st = map (\<lambda>r. r) (s_tbl st) @ []" by simp
  then show ?case by (intro exI [of _ "\<lambda>r. r"] exI [of _ "[]"]) simp
next
  case (Cons row rows)
  let ?st1 = "save_row lit ddl now sel edit row st"
  obtain f1 a1 where s1: "s_tbl ?st1 = map f1 (s_tbl st) @ a1" "\<forall>r\<in>set a1. nullable r"
      and f1: "\<And>r. schema_id (f1 r) = schema_id r"
              "\<And>r. f1 r = r \<or> (nullable (f1 r) \<and> Some (schema_id r) = row_ID row)"
    using save_row_step [of lit ddl now sel edit row st] by blast
  obtain f2 a2 where
        s2: "s_tbl (fold (save_row lit ddl now sel edit) rows ?st1) = map f2 (s_tbl ?st1) @ a2"
        "\<forall>r\<in>set a2. nullable r"
      and f2: "\<And>r. schema_id (f2 r) = schema_id r"
              "\<And>r. f2 r = r \<or> (nullable (f2 r) \<and> Some (schema_id r) \<in> set (map row_ID rows))"
    using Cons.IH [of ?st1] by blast
  let ?f = "\<lambda>r. f2 (f1 r)" and ?a = "map f2 a1 @ a2"
  have eq: "s_tbl (fold (save_row lit ddl now sel edit) (row # rows) st) = map ?f (s_tbl st) @ ?a"
    using s1(1) s2(1) by simp
  have added: "\<forall>r\<in>set ?a. nullable r"
  proof
    fix r assume "r \<in> set ?a"
    then consider x where "x \<in> set a1" "r = f2 x" | "r \<in> set a2" by auto
    then show "nullable r"
    proof cases
      case 1
      with s1(2) f2(2) [of x] show ?thesis by auto
    next
      case 2
      with s2(2) show ?thesis by blast
    qed
  qed
  have keep: "\<forall>r. schema_id (?f r) = schema_id r
      \<and> (?f r = r \<or> (nullable (?f r) \<and> Some (schema_id r) \<in> set (map row_ID (row # rows))))"
  proof
    fix r
    have id: "schema_id (?f r) = schema_id r" by (simp add: f1(1) f2(1))
    have "?f r = r \<or> (nullable (?f r) \<and> Some (schema_id r) \<in> set (map row_ID (row # rows)))"
    proof (cases "f2 (f1 r) = f1 r")
      case True
      with f1(2) [of r] show ?thesis by auto
    next
      case False
      with f2(2) [of "f1 r"] have "nullable (f2 (f1 r))"
        "Some (schema_id (f1 r)) \<in> set (map row_ID rows)" by auto
      then show ?thesis by (simp add: f1(1))
    qed
    with id show "schema_id (?f r) = schema_id r
      \<and> (?f r = r \<or> (nullable (?f r) \<and> Some (schema_id r) \<in> set (map row_ID (row # rows))))"
      by blast
  qed
  from eq added keep show ?case by blast
qed

lemma save_changes_tbl:
  "fst (save_changes lit ddl py_str proc db now sel edit edited tbl) =
     s_tbl (fold (save_row lit ddl now sel edit) edited
       \<lparr>s_tbl = apply_deletions now edit edited tbl, changes_made = False,
        additions_made = False, raised = None\<rparr>)"
  by (simp add: save_changes_def Let_def split: option.splits)

lemma save_changes_shape:
  "\<exists>f added. fst (save_changes lit ddl py_str proc db now sel edit edited tbl)
        = map f (apply_deletions now edit edited tbl) @ added
      \<and> (\<forall>r\<in>set added. nullable r)
      \<and> (\<forall>r. schema_id (f r) = schema_id r
              \<and> (f r = r \<or> (nullable (f r) \<and> Some (schema_id r) \<in> set (map row_ID edited))))"
  using save_rows_fold [of lit ddl now sel edit edited
      "\<lparr>s_tbl = apply_deletions now edit edited tbl, changes_made = False,
        additions_made = False, raised = None\<rparr>"]
  by (simp add: save_changes_tbl)

lemma length_apply_deletions: "length (apply_deletions now edit edited tbl) = length tbl"
  by (simp add: apply_deletions_def fold_deactivate)

lemma set_map_filter_row_ID:
  "i \<in> set (List.map_filter row_ID xs) \<longleftrightarrow> Some i \<in> set (map row_ID xs)"
  by (induction xs) (auto simp: List.map_filter_simps split: option.splits)

lemma set_deleted_ids:
  "i \<in> set (deleted_ids edit edited) \<longleftrightarrow>
     Some i \<in> set (map row_ID edit) \<and> Some i \<notin> set (map row_ID edited)"
  by (simp add: deleted_ids_def set_map_filter_row_ID)

text \<open>
  C6. Removing a column in the designer deletes no row of \<open>target_schemas\<close>. The
  deletion step rewrites, in the rows whose id was shown and is gone from the
  editor, the active flag to false and the update timestamp, and nothing else; every
  other row is as it was. After the whole save handler the table is at least as long
  as before, and a removed column still stands at its position with its table name,
  column name, type, nullable flag, default and description.
\<close>

theorem delete_column_is_soft:
  "apply_deletions now edit edited tbl =
     map (\<lambda>r. if Some (schema_id r) \<in> set (map row_ID edit)
                 \<and> Some (schema_id r) \<notin> set (map row_ID edited)
              then r\<lparr>active := False, updated_timestamp := now\<rparr> else r) tbl
   \<and> length tbl \<le> length (fst (save_changes lit ddl py_str proc db now sel edit edited tbl))
   \<and> (\<forall>k<length tbl.
         Some (schema_id (tbl ! k)) \<in> set (map row_ID edit)
           \<and> Some (schema_id (tbl ! k)) \<notin> set (map row_ID edited) \<longrightarrow>
         fst (save_changes lit ddl py_str proc db now sel edit edited tbl) ! k
           = (tbl ! k)\<lparr>active := False, updated_timestamp := now\<rparr>)"
proof -
  let ?d = "\<lambda>r. if Some (schema_id r) \<in> set (map row_ID edit)
                 \<and> Some (schema_id r) \<notin> set (map row_ID edited)
              then r\<lparr>active := False, updated_timestamp := now\<rparr> else r"
  let ?new = "fst (save_changes lit ddl py_str proc db now sel edit edited tbl)"
  have del: "apply_deletions now edit edited tbl = map ?d tbl"
    unfolding apply_deletions_def fold_deactivate set_deleted_ids ..
  obtain f added where new: "?new = map f (apply_deletions now edit edited tbl) @ added"
    and f: "\<And>r. f r = r \<or> (nullable (f r) \<and> Some (schema_id r) \<in> set (map row_ID edited))"
    using save_changes_shape [of lit ddl py_str proc db now sel edit edited tbl] by blast
  have len: "length tbl \<le> length ?new"
    by (simp add: new length_apply_deletions)
  have soft: "?new ! k = (tbl ! k)\<lparr>active := False, updated_timestamp := now\<rparr>"
    if k: "k < length tbl" and ed: "Some (schema_id (tbl ! k)) \<in> set (map row_ID edit)"
      and gone: "Some (schema_id (tbl ! k)) \<notin> set (map row_ID edited)" for k
  proof -
    from k have "?new ! k = f (?d (tbl ! k))"
      by (simp add: new del nth_append)
    also from ed gone have "?d (tbl ! k) = (tbl ! k)\<lparr>active := False, updated_timestamp := now\<rparr>"
      by simp
    also have "f ((tbl ! k)\<lparr>active := False, updated_timestamp := now\<rparr>)
        = (tbl ! k)\<lparr>active := False, updated_timestamp := now\<rparr>"
      using f [of "(tbl ! k)\<lparr>active := False, updated_timestamp := now\<rparr>"] gone by simp
    finally show ?thesis .
  qed
  show ?thesis
  proof (intro conjI)
    show "apply_deletions now edit edited tbl = map ?d tbl" by (rule del)
    show "length tbl \<le> length ?new" by (rule len)
    show "\<forall>k<length tbl.
         Some (schema_id (tbl ! k)) \<in> set (map row_ID edit)
           \<and> Some (schema_id (tbl ! k)) \<notin> set (map row_ID edited) \<longrightarrow>
         ?new ! k = (tbl ! k)\<lparr>active := False, updated_timestamp := now\<rparr>"
      using soft by simp
  qed
qed

text \<open>
  The CUSTOMER table with columns ID and NAME, both shown in the editor; the user
  removes NAME and saves at time 9.
\<close>

theorem delete_column_is_soft_witness:
  "edit_df ''CUSTOMER'' [sample_column_ID, sample_column_NAME] = [sample_edit_ID, sample_edit_NAME]
   \<and> Some (schema_id ([sample_column_ID, sample_column_NAME] ! 1))
      \<in> set (map row_ID [sample_edit_ID, sample_edit_NAME])
   \<and> Some (schema_id ([sample_column_ID, sample_column_NAME] ! 1))
      \<notin> set (map row_ID [sample_edit_ID])
   \<and> fst (save_changes sql_literal sample_ddl (\<lambda>v. v) (\<lambda>tbl. sample_session) ''DB.SILVER'' 9
            ''CUSTOMER'' [sample_edit_ID, sample_edit_NAME] [sample_edit_ID]
            [sample_column_ID, sample_column_NAME]) ! 1
       = sample_column_NAME\<lparr>active := False, updated_timestamp := 9\<rparr>"
proof -
  let ?tbl = "[sample_column_ID, sample_column_NAME]"
  have shown: "Some (schema_id (?tbl ! 1)) \<in> set (map row_ID [sample_edit_ID, sample_edit_NAME])"
    and gone: "Some (schema_id (?tbl ! 1)) \<notin> set (map row_ID [sample_edit_ID])"
    by (simp_all add: sample_column_NAME_def sample_edit_ID_def sample_edit_NAME_def)
  have k: "(1::nat) < length ?tbl" by simp
  have shows_both: "edit_df ''CUSTOMER'' ?tbl = [sample_edit_ID, sample_edit_NAME]"
    by (simp add: edit_df_def schema_df_def cell_of_def sample_column_ID_def
          sample_column_NAME_def sample_edit_ID_def sample_edit_NAME_def)
  from delete_column_is_soft
    [of 9 "[sample_edit_ID, sample_edit_NAME]" "[sample_edit_ID]" ?tbl
        sql_literal sample_ddl "\<lambda>v. v" "\<lambda>tbl. sample_session" "''DB.SILVER''" "''CUSTOMER''"]
  have "\<forall>k<length ?tbl.
         Some (schema_id (?tbl ! k)) \<in> set (map row_ID [sample_edit_ID, sample_edit_NAME])
           \<and> Some (schema_id (?tbl ! k)) \<notin> set (map row_ID [sample_edit_ID]) \<longrightarrow>
         fst (save_changes sql_literal sample_ddl (\<lambda>v. v) (\<lambda>tbl. sample_session) ''DB.SILVER'' 9
            ''CUSTOMER'' [sample_edit_ID, sample_edit_NAME] [sample_edit_ID] ?tbl) ! k
           = (?tbl ! k)\<lparr>active := False, updated_timestamp := 9\<rparr>"
    by (elim conjE)
  with k shown gone
  have "fst (save_changes sql_literal sample_ddl (\<lambda>v. v) (\<lambda>tbl. sample_session) ''DB.SILVER'' 9
            ''CUSTOMER'' [sample_edit_ID, sample_edit_NAME] [sample_edit_ID] ?tbl) ! 1
           = (?tbl ! 1)\<lparr>active := False, updated_timestamp := 9\<rparr>"
    by blast
  with shows_both shown gone show ?thesis by simp
qed













lemma sample_retype_finds:
  "find (\<lambda>r. row_ID r = Some 1) [sample_edit_ID, sample_edit_NAME] = Some sample_edit_ID"
  by (simp add: sample_edit_ID_def)

lemma sample_retype_finds_NAME:
  "find (\<lambda>r. row_ID r = Some 2) [sample_edit_ID, sample_edit_NAME] = Some sample_edit_NAME"
  by (simp add: sample_edit_ID_def sample_edit_NAME_def)


lemma sample_no_changes: "\<not> has_changes row row"
  by (simp add: has_changes_def cell_differs_def)




lemma sample_new_upper: "upper ''email'' = ''EMAIL''" "upper ''ID'' = ''ID''"
  by code_simp+


text \<open>
  The same table; the user writes the description \<open>customer's id\<close> for ID and saves.
  The database rejects the \<^verbatim>\<open>UPDATE\<close>, \<^verbatim>\<open>execute_query\<close> swallows the error, and the
  handler goes on to the sync: the table is as it was, with ID not nullable.
\<close>

lemma rejected_update_changes_nothing:
  "fst (save_changes sql_literal sample_ddl (\<lambda>v. v) (\<lambda>tbl. sample_session) ''DB.SILVER'' 9
          ''CUSTOMER'' [sample_edit_ID, sample_edit_NAME]
          [sample_edit_ID_apostrophe, sample_edit_NAME]
          [sample_column_ID, sample_column_NAME])
     = [sample_column_ID, sample_column_NAME]
   \<and> snd (save_changes sql_literal sample_ddl (\<lambda>v. v) (\<lambda>tbl. sample_session) ''DB.SILVER'' 9
          ''CUSTOMER'' [sample_edit_ID, sample_edit_NAME]
          [sample_edit_ID_apostrophe, sample_edit_NAME]
          [sample_column_ID, sample_column_NAME])
     = Inr (sync_classify
              (execute_procedure (\<lambda>v. v) sample_session
                 (''CALL DB.SILVER.sync_table_with_metadata('' @ [CHR 39] @ ''CUSTOMER''
                    @ [CHR 39] @ '')'')))"
proof -
  have ids: "row_ID sample_edit_ID_apostrophe = Some 1" "row_ID sample_edit_NAME = Some 2"
    "row_ID sample_edit_ID = Some 1"
    "row_Column_Name sample_edit_ID_apostrophe = Text ''ID''"
    "row_Data_Type sample_edit_ID_apostrophe = Text ''VARCHAR(20)''"
    "row_Default sample_edit_ID_apostrophe = Cell_None"
    "row_Description sample_edit_ID_apostrophe = Text (''customer'' @ [CHR 39] @ ''s id'')"
    by (simp_all add: sample_edit_ID_apostrophe_def sample_edit_ID_def sample_edit_NAME_def)
  have ch: "has_changes sample_edit_ID sample_edit_ID_apostrophe"
    by (simp add: has_changes_def cell_differs_def sample_edit_ID_apostrophe_def
          sample_edit_ID_def)
  have rej: "update_column sql_literal 9 1 ''ID'' ''VARCHAR(20)'' None
               (Some (''customer'' @ [CHR 39] @ ''s id'')) tbl0 = tbl0" for tbl0
    by (simp add: update_column_def read_update_def read_opt_def sql_literal_no_quote)
  have del: "deleted_ids [sample_edit_ID, sample_edit_NAME]
               [sample_edit_ID_apostrophe, sample_edit_NAME] = []"
    by (simp add: deleted_ids_def List.map_filter_simps ids)
  have st: "fold (save_row sql_literal sample_ddl 9 ''CUSTOMER'' [sample_edit_ID, sample_edit_NAME])
             [sample_edit_ID_apostrophe, sample_edit_NAME]
             \<lparr>s_tbl = tbl0, changes_made = False, additions_made = False, raised = None\<rparr>
      = \<lparr>s_tbl = tbl0, changes_made = True, additions_made = False, raised = None\<rparr>" for tbl0
    using rej [of tbl0]
    by (simp add: save_row_def ids sample_retype_finds sample_retype_finds_NAME ch
          sample_no_changes Let_def sample_new_upper quoted_or_null_def none_choice_def)
  have nodel: "apply_deletions 9 [sample_edit_ID, sample_edit_NAME]
                 [sample_edit_ID_apostrophe, sample_edit_NAME] tbl0 = tbl0" for tbl0
    by (simp add: apply_deletions_def del)
  show ?thesis
    by (simp only: save_changes_def Let_def del nodel st) simp
qed

text \<open>
  A missing default that pandas gives as \<^verbatim>\<open>NaN\<close> passes Python's truth test and is
  written as the text \<open>nan\<close>; \<^verbatim>\<open>None\<close> and the choice \<open>(None)\<close> are written as
  \<^verbatim>\<open>NULL\<close>.
\<close>

lemma nan_default_written_as_text:
  "quoted_or_null (none_choice Cell_NaN) = Some ''nan''
   \<and> quoted_or_null (none_choice Cell_None) = None
   \<and> quoted_or_null (none_choice (Text ''(None)'')) = None"
  by (simp add: quoted_or_null_def none_choice_def)

subsection \<open>Approval gate of the mapping preview\<close>

lemma mappings_test_df_approved_only:
  "mappings_test_df sel tbl = mappings_test_df sel (filter approved tbl)"
proof -
  have "[r \<leftarrow> tbl. target_table r = sel \<and> approved r]
      = [r \<leftarrow> filter approved tbl. target_table r = sel \<and> approved r]"
    by (induction tbl) auto
  then show ?thesis by (simp only: mappings_test_df_def)
qed

lemma mappings_test_df_origin:
  assumes "t \<in> set (mappings_test_df sel tbl)"
  shows "\<exists>r\<in>set tbl. approved r \<and> target_table r = sel
           \<and> t = (source_field r, source_table r, target_column r, transformation_logic r)"
proof -
  from assms obtain r where "r \<in> set [r \<leftarrow> tbl. target_table r = sel \<and> approved r]"
    and "t = (source_field r, source_table r, target_column r, transformation_logic r)"
    unfolding mappings_test_df_def by auto
  then show ?thesis by auto
qed

lemma approved_mappings_for_approved_only:
  "approved_mappings_for target tbl = approved_mappings_for target (filter approved tbl)"
  unfolding approved_mappings_for_def by (induction tbl) auto

text \<open>
  C1. The Test Mappings preview reads only approved mappings. Two mapping stores with
  the same approved rows (in the same order), whatever their unapproved rows and
  whatever the mapping methods, give the same preview: the same list of mappings, the
  same statement and so the same result of running it; every mapping the preview uses
  is an approved row of the selected table. The same holds for the MAP step of the
  transformation as the spec describes it: the two stores map every source row to the
  same output.
\<close>

theorem preview_ignores_unapproved:
  assumes "filter approved store1 = filter approved store2"
  shows "test_mappings run DB_BRONZE sample_rows sel store1
           = test_mappings run DB_BRONZE sample_rows sel store2
         \<and> (\<forall>t\<in>set (mappings_test_df sel store1).
               \<exists>r\<in>set store1. approved r \<and> target_table r = sel
                 \<and> t = (source_field r, source_table r, target_column r,
                        transformation_logic r))
         \<and> map_row cast eval dflt schema store1 sel src
           = map_row cast eval dflt schema store2 sel src"
proof (intro conjI)
  have "mappings_test_df sel store1 = mappings_test_df sel store2"
    using assms mappings_test_df_approved_only [of sel store1]
      mappings_test_df_approved_only [of sel store2] by simp
  then show "test_mappings run DB_BRONZE sample_rows sel store1
           = test_mappings run DB_BRONZE sample_rows sel store2"
    by (simp only: test_mappings_def)
  show "\<forall>t\<in>set (mappings_test_df sel store1).
               \<exists>r\<in>set store1. approved r \<and> target_table r = sel
                 \<and> t = (source_field r, source_table r, target_column r,
                        transformation_logic r)"
    using mappings_test_df_origin by blast
  have "approved_mappings_for sel store1 = approved_mappings_for sel store2"
    using assms approved_mappings_for_approved_only [of sel store1]
      approved_mappings_for_approved_only [of sel store2] by simp
  then show "map_row cast eval dflt schema store1 sel src
           = map_row cast eval dflt schema store2 sel src"
    by (simp only: map_row_def)
qed

text \<open>
  A store with the pending mapping A and the approved mapping B, and the store with B
  alone: the preview of CUSTOMER is the same, and it is built from B; the source row
  with CUST_ID 7 and CUST_NAME bob is mapped to the same CUSTOMER row.
\<close>

theorem preview_ignores_unapproved_witness:
  "filter approved [sample_mapping_A, sample_mapping_B] = filter approved [sample_mapping_B]
   \<and> test_mappings (\<lambda>q. q) ''DB.BRONZE'' ''10'' ''CUSTOMER'' [sample_mapping_A, sample_mapping_B]
       = test_mappings (\<lambda>q. q) ''DB.BRONZE'' ''10'' ''CUSTOMER'' [sample_mapping_B]
   \<and> test_mappings (\<lambda>q. q) ''DB.BRONZE'' ''10'' ''CUSTOMER'' [sample_mapping_B]
       = Preview [(''CUST_NAME'', ''RAW_DATA_TABLE'', ''NAME'', None)]
           (''SELECT RAW_DATA:CUST_NAME::VARCHAR AS NAME FROM DB.BRONZE.RAW_DATA_TABLE''
              @ '' WHERE RAW_DATA IS NOT NULL LIMIT 10'')
           (''SELECT RAW_DATA:CUST_NAME::VARCHAR AS NAME FROM DB.BRONZE.RAW_DATA_TABLE''
              @ '' WHERE RAW_DATA IS NOT NULL LIMIT 10'')
   \<and> map_row (\<lambda>c v. v) (\<lambda>e src. None) (\<lambda>d. None)
         [sample_column_ID\<lparr>nullable := True\<rparr>, sample_column_NAME] [sample_mapping_A, sample_mapping_B]
         ''CUSTOMER'' [''CUST_ID'' \<mapsto> ''7'', ''CUST_NAME'' \<mapsto> ''bob'']
       = map_row (\<lambda>c v. v) (\<lambda>e src. None) (\<lambda>d. None)
         [sample_column_ID\<lparr>nullable := True\<rparr>, sample_column_NAME] [sample_mapping_B]
         ''CUSTOMER'' [''CUST_ID'' \<mapsto> ''7'', ''CUST_NAME'' \<mapsto> ''bob'']
   \<and> map_row (\<lambda>c v. v) (\<lambda>e src. None) (\<lambda>d. None)
         [sample_column_ID\<lparr>nullable := True\<rparr>, sample_column_NAME] [sample_mapping_B]
         ''CUSTOMER'' [''CUST_ID'' \<mapsto> ''7'', ''CUST_NAME'' \<mapsto> ''bob'']
       = Inr [(''ID'', None), (''NAME'', Some ''bob'')]"
proof -
  have h: "filter approved [sample_mapping_A, sample_mapping_B] = filter approved [sample_mapping_B]"
    by (simp add: sample_mapping_A_def sample_mapping_B_def)
  have df0: "mappings_test_df ''CUSTOMER'' [sample_mapping_B]
       = [(''CUST_NAME'', ''RAW_DATA_TABLE'', ''NAME'', None)]"
    by (simp add: mappings_test_df_def sample_mapping_B_def)
  have df: "test_mappings (\<lambda>q. q) ''DB.BRONZE'' ''10'' ''CUSTOMER'' [sample_mapping_B]
       = Preview [(''CUST_NAME'', ''RAW_DATA_TABLE'', ''NAME'', None)]
           (''SELECT RAW_DATA:CUST_NAME::VARCHAR AS NAME FROM DB.BRONZE.RAW_DATA_TABLE''
              @ '' WHERE RAW_DATA IS NOT NULL LIMIT 10'')
           (''SELECT RAW_DATA:CUST_NAME::VARCHAR AS NAME FROM DB.BRONZE.RAW_DATA_TABLE''
              @ '' WHERE RAW_DATA IS NOT NULL LIMIT 10'')"
    by (simp add: test_mappings_def df0 test_query_def select_clause_def)
  have out: "map_row (\<lambda>c v. v) (\<lambda>e src. None) (\<lambda>d. None)
         [sample_column_ID\<lparr>nullable := True\<rparr>, sample_column_NAME] [sample_mapping_B]
         ''CUSTOMER'' [''CUST_ID'' \<mapsto> ''7'', ''CUST_NAME'' \<mapsto> ''bob'']
       = Inr [(''ID'', None), (''NAME'', Some ''bob'')]"
    by (simp add: map_row_def approved_mappings_for_def map_value_def sample_mapping_B_def
          sample_column_ID_def sample_column_NAME_def)
  note inst = preview_ignores_unapproved
    [OF h, of "\<lambda>q. q" "''DB.BRONZE''" "''10''" "''CUSTOMER''" "\<lambda>c v. v" "\<lambda>e src. None"
       "\<lambda>d. None" "[sample_column_ID\<lparr>nullable := True\<rparr>, sample_column_NAME]"
       "[''CUST_ID'' \<mapsto> ''7'', ''CUST_NAME'' \<mapsto> ''bob'']"]
  from inst
  have p: "test_mappings (\<lambda>q. q) ''DB.BRONZE'' ''10'' ''CUSTOMER'' [sample_mapping_A, sample_mapping_B]
       = test_mappings (\<lambda>q. q) ''DB.BRONZE'' ''10'' ''CUSTOMER'' [sample_mapping_B]"
    by (rule conjunct1)
  from inst
  have m: "map_row (\<lambda>c v. v) (\<lambda>e src. None) (\<lambda>d. None)
         [sample_column_ID\<lparr>nullable := True\<rparr>, sample_column_NAME] [sample_mapping_A, sample_mapping_B]
         ''CUSTOMER'' [''CUST_ID'' \<mapsto> ''7'', ''CUST_NAME'' \<mapsto> ''bob'']
       = map_row (\<lambda>c v. v) (\<lambda>e src. None) (\<lambda>d. None)
         [sample_column_ID\<lparr>nullable := True\<rparr>, sample_column_NAME] [sample_mapping_B]
         ''CUSTOMER'' [''CUST_ID'' \<mapsto> ''7'', ''CUST_NAME'' \<mapsto> ''bob'']"
    by (elim conjE)
  from h p df m out show ?thesis by blast
qed

subsection \<open>Manual mappings\<close>

lemma map_cond_update_preserves:
  assumes "\<forall>r\<in>set tbl. Q r" and "\<And>r. Q r \<Longrightarrow> Q (g r)"
  shows "\<forall>r\<in>set (map (\<lambda>r. if c r then g r else r) tbl). Q r"
  using assms by auto

lemma save_mapping_row_cases:
  "fst (save_mapping_row now user_name pair st) = fst st
   \<or> (\<exists>cu tlogic descr k.
         fst (save_mapping_row now user_name pair st) = update_approve now cu tlogic descr k (fst st))
   \<or> (\<exists>tlogic descr k.
         fst (save_mapping_row now user_name pair st) = update_unapprove now tlogic descr k (fst st))
   \<or> (\<exists>tlogic descr k.
         fst (save_mapping_row now user_name pair st) = update_texts now tlogic descr k (fst st))"
proof (cases pair)
  case (Pair original_row edited_row)
  show ?thesis
  proof (cases "MAPPING_ID edited_row")
    case None
    with Pair show ?thesis by (simp add: save_mapping_row_def Let_def)
  next
    case (Some k)
    let ?changed = "approved_value edited_row \<noteq> approved_value original_row
        \<or> str_cell (TRANSFORMATION_LOGIC edited_row) \<noteq> str_cell (TRANSFORMATION_LOGIC original_row)
        \<or> str_cell (DESCRIPTION edited_row) \<noteq> str_cell (DESCRIPTION original_row)"
    show ?thesis
    proof (cases ?changed)
      case False
      with Pair show ?thesis by (simp add: save_mapping_row_def Let_def)
    next
      case True
      consider (app) "approved_value edited_row \<noteq> approved_value original_row"
          "approved_value edited_row"
        | (unapp) "approved_value edited_row \<noteq> approved_value original_row"
          "\<not> approved_value edited_row"
        | (texts) "approved_value edited_row = approved_value original_row"
        by blast
      then show ?thesis
      proof cases
        case app
        with Pair Some have "fst (save_mapping_row now user_name pair st)
            = update_approve now (case user_name of None \<Rightarrow> ''UNKNOWN'' | Some u \<Rightarrow> u)
                (cell_sql (TRANSFORMATION_LOGIC edited_row)) (cell_sql (DESCRIPTION edited_row))
                k (fst st)"
          by (simp add: save_mapping_row_def Let_def)
        then show ?thesis by blast
      next
        case unapp
        with Pair Some have "fst (save_mapping_row now user_name pair st)
            = update_unapprove now
                (cell_sql (TRANSFORMATION_LOGIC edited_row)) (cell_sql (DESCRIPTION edited_row))
                k (fst st)"
          by (simp add: save_mapping_row_def Let_def)
        then show ?thesis by blast
      next
        case texts
        with Pair Some True have "fst (save_mapping_row now user_name pair st)
            = update_texts now
                (cell_sql (TRANSFORMATION_LOGIC edited_row)) (cell_sql (DESCRIPTION edited_row))
                k (fst st)"
          by (simp add: save_mapping_row_def Let_def)
        then show ?thesis by blast
      qed
    qed
  qed
qed

lemma save_mapping_row_keeps_confidence:
  assumes "\<forall>r\<in>set (fst st). mapping_method r = ''MANUAL'' \<longrightarrow> confidence_score r = 1"
  shows "\<forall>r\<in>set (fst (save_mapping_row now user_name pair st)).
           mapping_method r = ''MANUAL'' \<longrightarrow> confidence_score r = 1"
proof -
  let ?new = "fst (save_mapping_row now user_name pair st)"
  consider "?new = fst st"
    | cu tlogic descr k where "?new = update_approve now cu tlogic descr k (fst st)"
    | tlogic descr k where "?new = update_unapprove now tlogic descr k (fst st)"
    | tlogic descr k where "?new = update_texts now tlogic descr k (fst st)"
    using save_mapping_row_cases [of now user_name pair st] by blast
  then show ?thesis
  proof cases
    case 1
    with assms show ?thesis by simp
  next
    case 2
    show ?thesis unfolding 2 update_approve_def
      by (rule map_cond_update_preserves [OF assms]) simp
  next
    case 3
    show ?thesis unfolding 3 update_unapprove_def
      by (rule map_cond_update_preserves [OF assms]) simp
  next
    case 4
    show ?thesis unfolding 4 update_texts_def
      by (rule map_cond_update_preserves [OF assms]) simp
  qed
qed

lemma fold_save_mapping_row_keeps_confidence:
  assumes "\<forall>r\<in>set (fst st). mapping_method r = ''MANUAL'' \<longrightarrow> confidence_score r = 1"
  shows "\<forall>r\<in>set (fst (fold (save_mapping_row now user_name) pairs st)).
           mapping_method r = ''MANUAL'' \<longrightarrow> confidence_score r = 1"
  using assms
proof (induction pairs arbitrary: st)
  case Nil
  then show ?case by simp
next
  case (Cons pair pairs)
  from Cons.prems
  have "\<forall>r\<in>set (fst (save_mapping_row now user_name pair st)).
           mapping_method r = ''MANUAL'' \<longrightarrow> confidence_score r = 1"
    by (rule save_mapping_row_keeps_confidence)
  then show ?case using Cons.IH by simp
qed

lemma set_fold_delete_mapping: "set (fold delete_mapping ks tbl) \<subseteq> set tbl"
proof (induction ks arbitrary: tbl)
  case Nil
  then show ?case by simp
next
  case (Cons k ks)
  have "set (fold delete_mapping ks (delete_mapping k tbl)) \<subseteq> set (delete_mapping k tbl)"
    by (rule Cons.IH)
  also have "\<dots> \<subseteq> set tbl" by (auto simp: delete_mapping_def)
  finally show ?case by simp
qed

lemma save_mappings_keeps_confidence:
  assumes "\<forall>r\<in>set tbl. mapping_method r = ''MANUAL'' \<longrightarrow> confidence_score r = 1"
  shows "\<forall>r\<in>set (fst (save_mappings now user_name display edited tbl)).
           mapping_method r = ''MANUAL'' \<longrightarrow> confidence_score r = 1"
proof -
  let ?del = "fold delete_mapping (deleted_mapping_ids display edited) tbl"
  from assms set_fold_delete_mapping [of "deleted_mapping_ids display edited" tbl]
  have "\<forall>r\<in>set (fst (?del, deleted_mapping_ids display edited \<noteq> [])).
          mapping_method r = ''MANUAL'' \<longrightarrow> confidence_score r = 1"
    by auto
  then show ?thesis
    unfolding save_mappings_def Let_def
    by (rule fold_save_mapping_row_keeps_confidence)
qed

text \<open>
  C2. Submitting the manual mapping form with source field, target table and target
  column stores one more mapping, with method MANUAL, confidence score 1.0 and
  approved = TRUE. Hence "every MANUAL mapping has confidence 1.0" is kept by the
  manual entry path; the editor's save handler keeps it too, since none of its
  statements writes the method or the score.
\<close>

theorem manual_mapping_confidence:
  "(form_source_field form \<noteq> [] \<and> form_target_table form \<noteq> []
      \<and> form_target_column form \<noteq> [] \<longrightarrow>
      (\<exists>m. fst (manual_mapping_submit ddl form tbl) = tbl @ [m]
          \<and> mapping_method m = ''MANUAL'' \<and> confidence_score m = 1 \<and> approved m))
   \<and> ((\<forall>r\<in>set tbl. mapping_method r = ''MANUAL'' \<longrightarrow> confidence_score r = 1) \<longrightarrow>
      (\<forall>r\<in>set (fst (manual_mapping_submit ddl form tbl)).
          mapping_method r = ''MANUAL'' \<longrightarrow> confidence_score r = 1)
      \<and> (\<forall>r\<in>set (fst (save_mappings now user_name display edited tbl)).
          mapping_method r = ''MANUAL'' \<longrightarrow> confidence_score r = 1))"
proof (intro conjI impI)
  assume "form_source_field form \<noteq> [] \<and> form_target_table form \<noteq> []
      \<and> form_target_column form \<noteq> []"
  then show "\<exists>m. fst (manual_mapping_submit ddl form tbl) = tbl @ [m]
          \<and> mapping_method m = ''MANUAL'' \<and> confidence_score m = 1 \<and> approved m"
    by (simp add: manual_mapping_submit_def)
next
  assume inv: "\<forall>r\<in>set tbl. mapping_method r = ''MANUAL'' \<longrightarrow> confidence_score r = 1"
  then show "\<forall>r\<in>set (fst (manual_mapping_submit ddl form tbl)).
          mapping_method r = ''MANUAL'' \<longrightarrow> confidence_score r = 1"
    by (simp add: manual_mapping_submit_def)
next
  assume inv: "\<forall>r\<in>set tbl. mapping_method r = ''MANUAL'' \<longrightarrow> confidence_score r = 1"
  then show "\<forall>r\<in>set (fst (save_mappings now user_name display edited tbl)).
          mapping_method r = ''MANUAL'' \<longrightarrow> confidence_score r = 1"
    by (rule save_mappings_keeps_confidence)
qed

text \<open>The form \<open>cust_name\<close> to \<open>CUSTOMER.name\<close>, submitted on a store that holds mapping B.\<close>

theorem manual_mapping_confidence_witness:
  "form_source_field sample_mapping_form \<noteq> [] \<and> form_target_table sample_mapping_form \<noteq> []
   \<and> form_target_column sample_mapping_form \<noteq> []
   \<and> mapping_method sample_mapping_B = ''MANUAL'' \<and> confidence_score sample_mapping_B = 1
   \<and> (\<exists>m. fst (manual_mapping_submit sample_fm_ddl sample_mapping_form [sample_mapping_B])
            = [sample_mapping_B] @ [m]
          \<and> mapping_method m = ''MANUAL'' \<and> confidence_score m = 1 \<and> approved m)
   \<and> list_all (\<lambda>r. mapping_method r \<noteq> ''MANUAL'' \<or> confidence_score r = 1)
       (fst (manual_mapping_submit sample_fm_ddl sample_mapping_form [sample_mapping_B]))"
proof -
  have valid: "form_source_field sample_mapping_form \<noteq> [] \<and> form_target_table sample_mapping_form \<noteq> []
      \<and> form_target_column sample_mapping_form \<noteq> []"
    by (simp add: sample_mapping_form_def)
  have b: "mapping_method sample_mapping_B = ''MANUAL''" "confidence_score sample_mapping_B = 1"
    by (simp_all add: sample_mapping_B_def)
  then have inv: "\<forall>r\<in>set [sample_mapping_B]. mapping_method r = ''MANUAL'' \<longrightarrow> confidence_score r = 1"
    by simp
  note inst = manual_mapping_confidence
    [of sample_mapping_form sample_fm_ddl "[sample_mapping_B]" 9 "Some ''BOB''" "[]" "[]"]
  from inst valid
  have new: "\<exists>m. fst (manual_mapping_submit sample_fm_ddl sample_mapping_form [sample_mapping_B])
            = [sample_mapping_B] @ [m]
          \<and> mapping_method m = ''MANUAL'' \<and> confidence_score m = 1 \<and> approved m"
    by blast
  from inst inv
  have "\<forall>r\<in>set (fst (manual_mapping_submit sample_fm_ddl sample_mapping_form [sample_mapping_B])).
          mapping_method r = ''MANUAL'' \<longrightarrow> confidence_score r = 1"
    by blast
  then have kept: "list_all (\<lambda>r. mapping_method r \<noteq> ''MANUAL'' \<or> confidence_score r = 1)
       (fst (manual_mapping_submit sample_fm_ddl sample_mapping_form [sample_mapping_B]))"
    unfolding list_all_iff by blast
  from valid b new kept show ?thesis by blast
qed

subsection \<open>Duplicate mappings\<close>

lemma ex_in_take_iff:
  assumes "i \<le> length xs"
  shows "(\<exists>x\<in>set (take i xs). P x) \<longleftrightarrow> (\<exists>j<i. P (xs ! j))"
proof
  assume "\<exists>x\<in>set (take i xs). P x"
  then obtain x where "x \<in> set (take i xs)" "P x" by blast
  then obtain j where "j < length (take i xs)" "take i xs ! j = x"
    by (auto simp: in_set_conv_nth)
  with assms \<open>P x\<close> have "j < i" "P (xs ! j)" by simp_all
  then show "\<exists>j<i. P (xs ! j)" by blast
next
  assume "\<exists>j<i. P (xs ! j)"
  then obtain j where j: "j < i" "P (xs ! j)" by blast
  with assms have "take i xs ! j = xs ! j" "j < length (take i xs)" by simp_all
  then have "xs ! j \<in> set (take i xs)" by (metis nth_mem)
  with j(2) show "\<exists>x\<in>set (take i xs). P x" by blast
qed

lemma ex_in_drop_iff:
  "(\<exists>x\<in>set (drop n xs). P x) \<longleftrightarrow> (\<exists>j<length xs. n \<le> j \<and> P (xs ! j))"
proof
  assume "\<exists>x\<in>set (drop n xs). P x"
  then obtain x where "x \<in> set (drop n xs)" "P x" by blast
  then obtain k where k: "k < length (drop n xs)" "drop n xs ! k = x"
    by (auto simp: in_set_conv_nth)
  then have "n + k < length xs" "xs ! (n + k) = x" by simp_all
  with \<open>P x\<close> have "n + k < length xs \<and> n \<le> n + k \<and> P (xs ! (n + k))" by simp
  then show "\<exists>j<length xs. n \<le> j \<and> P (xs ! j)" by blast
next
  assume "\<exists>j<length xs. n \<le> j \<and> P (xs ! j)"
  then obtain j where j: "j < length xs" "n \<le> j" "P (xs ! j)" by blast
  then have "j - n < length (drop n xs)" "drop n xs ! (j - n) = xs ! j" by simp_all
  then have "xs ! j \<in> set (drop n xs)" by (metis nth_mem)
  with j(3) show "\<exists>x\<in>set (drop n xs). P x" by blast
qed

lemma more_than_one_match_iff:
  assumes i: "i < length xs" and Pi: "P (xs ! i)"
  shows "1 < length (filter P xs) \<longleftrightarrow> (\<exists>j<length xs. j \<noteq> i \<and> P (xs ! j))"
proof -
  have split: "xs = take i xs @ xs ! i # drop (Suc i) xs"
    using i by (rule id_take_nth_drop)
  have "length (filter P xs)
      = length (filter P (take i xs)) + 1 + length (filter P (drop (Suc i) xs))"
    by (subst split) (simp add: Pi)
  then have "1 < length (filter P xs)
      \<longleftrightarrow> filter P (take i xs) \<noteq> [] \<or> filter P (drop (Suc i) xs) \<noteq> []"
    by auto
  also have "\<dots> \<longleftrightarrow> (\<exists>x\<in>set (take i xs). P x) \<or> (\<exists>x\<in>set (drop (Suc i) xs). P x)"
    by (simp add: filter_empty_conv)
  also have "\<dots> \<longleftrightarrow> (\<exists>j<i. P (xs ! j)) \<or> (\<exists>j<length xs. Suc i \<le> j \<and> P (xs ! j))"
    using i by (simp add: ex_in_take_iff ex_in_drop_iff)
  also have "\<dots> \<longleftrightarrow> (\<exists>j<length xs. j \<noteq> i \<and> P (xs ! j))"
  proof
    assume "(\<exists>j<i. P (xs ! j)) \<or> (\<exists>j<length xs. Suc i \<le> j \<and> P (xs ! j))"
    then consider j where "j < i" "P (xs ! j)"
      | j where "j < length xs" "Suc i \<le> j" "P (xs ! j)"
      by blast
    then show "\<exists>j<length xs. j \<noteq> i \<and> P (xs ! j)"
    proof cases
      case 1
      with i have "j < length xs \<and> j \<noteq> i \<and> P (xs ! j)" by simp
      then show ?thesis by blast
    next
      case 2
      then have "j < length xs \<and> j \<noteq> i \<and> P (xs ! j)" by simp
      then show ?thesis by blast
    qed
  next
    assume "\<exists>j<length xs. j \<noteq> i \<and> P (xs ! j)"
    then obtain j where j: "j < length xs" "j \<noteq> i" "P (xs ! j)" by blast
    then consider "j < i" | "Suc i \<le> j" by linarith
    then show "(\<exists>j<i. P (xs ! j)) \<or> (\<exists>j<length xs. Suc i \<le> j \<and> P (xs ! j))"
      using j by cases blast+
  qed
  finally show ?thesis .
qed

text \<open>
  C3, as the code has it. The manual insert path checks nothing about the rows already
  stored: a valid form always appends its mapping, with the key made of the upper-cased
  source table, source field, target table and target column. Duplicates are marked
  when the mappings are read for display: a row of the displayed frame is marked
  exactly when another row of the frame has the same source table, source field,
  target table and target column, so every member of such a group is marked.
\<close>

theorem duplicates_flagged_not_blocked:
  "(form_source_field form \<noteq> [] \<and> form_target_table form \<noteq> []
      \<and> form_target_column form \<noteq> [] \<longrightarrow>
      (\<exists>m. fst (manual_mapping_submit ddl form tbl) = tbl @ [m]
          \<and> duplicate_key m = (upper (form_source_table form), upper (form_source_field form),
                upper (form_target_table form), upper (form_target_column form))))
   \<and> length (IS_DUPLICATE df) = length df
   \<and> (\<forall>i<length df.
        IS_DUPLICATE df ! i
          = (\<exists>j<length df. j \<noteq> i \<and> duplicate_key (df ! j) = duplicate_key (df ! i)))"
proof (intro conjI impI allI)
  assume "form_source_field form \<noteq> [] \<and> form_target_table form \<noteq> []
      \<and> form_target_column form \<noteq> []"
  then show "\<exists>m. fst (manual_mapping_submit ddl form tbl) = tbl @ [m]
          \<and> duplicate_key m = (upper (form_source_table form), upper (form_source_field form),
                upper (form_target_table form), upper (form_target_column form))"
    by (simp add: manual_mapping_submit_def duplicate_key_def)
next
  show "length (IS_DUPLICATE df) = length df" by (simp add: IS_DUPLICATE_def)
next
  fix i assume i: "i < length df"
  then have "IS_DUPLICATE df ! i
      = (1 < length [x \<leftarrow> df. duplicate_key x = duplicate_key (df ! i)])"
    by (simp add: IS_DUPLICATE_def)
  also have "\<dots> = (\<exists>j<length df. j \<noteq> i \<and> duplicate_key (df ! j) = duplicate_key (df ! i))"
    using i by (rule more_than_one_match_iff) simp
  finally show "IS_DUPLICATE df ! i
      = (\<exists>j<length df. j \<noteq> i \<and> duplicate_key (df ! j) = duplicate_key (df ! i))" .
qed

text \<open>
  The form \<open>cust_name\<close> to \<open>CUSTOMER.name\<close> is accepted on a store that already maps
  CUST_NAME to CUSTOMER.NAME (mapping B), and a frame with B twice has its first row
  marked.
\<close>

theorem duplicates_flagged_not_blocked_witness:
  "form_source_field sample_mapping_form \<noteq> [] \<and> form_target_table sample_mapping_form \<noteq> []
   \<and> form_target_column sample_mapping_form \<noteq> []
   \<and> (\<exists>m. fst (manual_mapping_submit sample_fm_ddl sample_mapping_form [sample_mapping_B])
            = [sample_mapping_B] @ [m]
          \<and> duplicate_key m = duplicate_key sample_mapping_B)
   \<and> (0::nat) < length [sample_mapping_B, sample_mapping_B\<lparr>mapping_id := 4\<rparr>]
   \<and> IS_DUPLICATE [sample_mapping_B, sample_mapping_B\<lparr>mapping_id := 4\<rparr>] ! 0"
proof -
  let ?df = "[sample_mapping_B, sample_mapping_B\<lparr>mapping_id := 4\<rparr>]"
  have valid: "form_source_field sample_mapping_form \<noteq> [] \<and> form_target_table sample_mapping_form \<noteq> []
      \<and> form_target_column sample_mapping_form \<noteq> []"
    by (simp add: sample_mapping_form_def)
  have key: "(upper (form_source_table sample_mapping_form),
              upper (form_source_field sample_mapping_form),
              upper (form_target_table sample_mapping_form),
              upper (form_target_column sample_mapping_form)) = duplicate_key sample_mapping_B"
  proof -
    have "upper ''RAW_DATA_TABLE'' = ''RAW_DATA_TABLE''" "upper ''cust_name'' = ''CUST_NAME''"
      "upper ''CUSTOMER'' = ''CUSTOMER''" "upper ''name'' = ''NAME''"
      by code_simp+
    then show ?thesis
      by (simp add: sample_mapping_form_def sample_mapping_B_def duplicate_key_def)
  qed
  have pos: "(0::nat) < length ?df" by simp
  have other: "\<exists>j<length ?df. j \<noteq> 0 \<and> duplicate_key (?df ! j) = duplicate_key (?df ! 0)"
    by (intro exI [of _ 1]) (simp add: duplicate_key_def)
  note inst = duplicates_flagged_not_blocked
    [of sample_mapping_form sample_fm_ddl "[sample_mapping_B]" ?df]
  from inst valid key
  have ins: "\<exists>m. fst (manual_mapping_submit sample_fm_ddl sample_mapping_form [sample_mapping_B])
            = [sample_mapping_B] @ [m]
          \<and> duplicate_key m = duplicate_key sample_mapping_B"
    by simp
  from inst pos other have flag: "IS_DUPLICATE ?df ! 0" by blast
  from valid ins pos flag show ?thesis by blast
qed

text \<open>
  C3 as stated fails: mappings B and C have the same source field and the same target
  column, for two target tables; shown together (all tables), neither is marked.
\<close>

theorem duplicate_pair_not_flagged_counterexample:
  "source_field sample_mapping_B = source_field sample_mapping_C
   \<and> target_column sample_mapping_B = target_column sample_mapping_C
   \<and> IS_DUPLICATE (mappings_query ''(All Tables)'' None Created_Oldest_First
                     [sample_mapping_B, sample_mapping_C]) = [False, False]"
  by (simp add: sample_mapping_C_def sample_mapping_B_def mappings_query_def
        IS_DUPLICATE_def duplicate_key_def)

subsection \<open>Order of the rules\<close>

lemma sorted_wrt_sort_key_rel:
  assumes "\<And>a b. f a \<le> f b \<Longrightarrow> R a b"
  shows "sorted_wrt R (sort_key f xs)"
proof -
  have "sorted (map f (sort_key f xs))" by (rule sorted_sort_key)
  then have "sorted_wrt (\<lambda>a b. f a \<le> f b) (sort_key f xs)"
    by (simp add: sorted_map)
  then show ?thesis
    by (rule sorted_wrt_mono_rel [rotated]) (simp add: assms)
qed

lemma applicable_rules_sorted:
  "sorted_wrt (\<lambda>a b. priority a < priority b
                 \<or> (priority a = priority b
                     \<and> rule_created_timestamp a \<le> rule_created_timestamp b))
     (applicable_rules scope_table scope_column tbl)"
  unfolding applicable_rules_def
  by (rule sorted_wrt_sort_key_rel) (auto simp: less_eq_prod_def)

lemma evaluation_order_tiers:
  "[r \<leftarrow> evaluation_order scope_table scope_column tbl. \<not> is_dedup r]
     = [r \<leftarrow> applicable_rules scope_table scope_column tbl. \<not> is_dedup r]"
  "[r \<leftarrow> evaluation_order scope_table scope_column tbl. is_dedup r]
     = [r \<leftarrow> applicable_rules scope_table scope_column tbl. is_dedup r]"
  by (simp_all add: evaluation_order_def Let_def)

text \<open>
  C4, as the spec's engine and the code's listings have it. For evaluation the
  applicable rules are sorted by priority ascending, rules of equal priority by
  creation timestamp ascending; the engine runs the rules that are not deduplication
  rules in this order and after them the deduplication rules in this order. Both
  listings of the application are ordered by priority ascending: in the All
  Transformation Rules listing two rules of equal priority stand with the
  later-created one first (creation timestamp descending), and the Test Rules listing
  orders by priority only.
\<close>

theorem rules_listing_order:
  "sorted_wrt (\<lambda>a b. priority a < priority b
                 \<or> (priority a = priority b
                     \<and> rule_created_timestamp a \<le> rule_created_timestamp b))
     (applicable_rules scope_table scope_column tbl)
   \<and> evaluation_order scope_table scope_column tbl
       = [r \<leftarrow> applicable_rules scope_table scope_column tbl. \<not> is_dedup r]
         @ [r \<leftarrow> applicable_rules scope_table scope_column tbl. is_dedup r]
   \<and> sorted_wrt (\<lambda>a b. priority a < priority b
                 \<or> (priority a = priority b
                     \<and> rule_created_timestamp a \<le> rule_created_timestamp b))
       [r \<leftarrow> evaluation_order scope_table scope_column tbl. \<not> is_dedup r]
   \<and> sorted_wrt (\<lambda>a b. priority a < priority b
                 \<or> (priority a = priority b
                     \<and> rule_created_timestamp a \<le> rule_created_timestamp b))
       [r \<leftarrow> evaluation_order scope_table scope_column tbl. is_dedup r]
   \<and> sorted_wrt (\<lambda>a b. priority a < priority b
                 \<or> (priority a = priority b
                     \<and> rule_created_timestamp b \<le> rule_created_timestamp a))
       (rules_df filter_type filter_table filter_active tbl)
   \<and> sorted_wrt (\<lambda>a b. priority a \<le> priority b) (rules_for_table_df test_target_table tbl)"
proof (intro conjI)
  show "sorted_wrt (\<lambda>a b. priority a < priority b
                 \<or> (priority a = priority b
                     \<and> rule_created_timestamp a \<le> rule_created_timestamp b))
     (applicable_rules scope_table scope_column tbl)"
    by (rule applicable_rules_sorted)
  show "evaluation_order scope_table scope_column tbl
       = [r \<leftarrow> applicable_rules scope_table scope_column tbl. \<not> is_dedup r]
         @ [r \<leftarrow> applicable_rules scope_table scope_column tbl. is_dedup r]"
    by (simp add: evaluation_order_def Let_def)
  show "sorted_wrt (\<lambda>a b. priority a < priority b
                 \<or> (priority a = priority b
                     \<and> rule_created_timestamp a \<le> rule_created_timestamp b))
       [r \<leftarrow> evaluation_order scope_table scope_column tbl. \<not> is_dedup r]"
    unfolding evaluation_order_tiers
    by (rule sorted_wrt_filter) (rule applicable_rules_sorted)
  show "sorted_wrt (\<lambda>a b. priority a < priority b
                 \<or> (priority a = priority b
                     \<and> rule_created_timestamp a \<le> rule_created_timestamp b))
       [r \<leftarrow> evaluation_order scope_table scope_column tbl. is_dedup r]"
    unfolding evaluation_order_tiers
    by (rule sorted_wrt_filter) (rule applicable_rules_sorted)
  show "sorted_wrt (\<lambda>a b. priority a < priority b
                 \<or> (priority a = priority b
                     \<and> rule_created_timestamp b \<le> rule_created_timestamp a))
     (rules_df filter_type filter_table filter_active tbl)"
    unfolding rules_df_def
    by (rule sorted_wrt_sort_key_rel) (auto simp: less_eq_prod_def)
  show "sorted_wrt (\<lambda>a b. priority a \<le> priority b) (rules_for_table_df test_target_table tbl)"
    unfolding rules_for_table_df_def
    by (rule sorted_wrt_sort_key_rel) simp
qed

text \<open>
  The two sample rules of priority 10 and the deduplication rule of priority 1: the
  order of evaluation for the table CUSTOMER, and the two listings.
\<close>

theorem rules_listing_order_witness:
  "evaluation_order ''CUSTOMER'' None [sample_rule_new, sample_rule_dedup, sample_rule_old]
     = [r \<leftarrow> applicable_rules ''CUSTOMER'' None
                [sample_rule_new, sample_rule_dedup, sample_rule_old]. \<not> is_dedup r]
       @ [r \<leftarrow> applicable_rules ''CUSTOMER'' None
                  [sample_rule_new, sample_rule_dedup, sample_rule_old]. is_dedup r]
   \<and> sorted_wrt (\<lambda>a b. priority a < priority b
                 \<or> (priority a = priority b
                     \<and> rule_created_timestamp a \<le> rule_created_timestamp b))
       (applicable_rules ''CUSTOMER'' None [sample_rule_new, sample_rule_dedup, sample_rule_old])
   \<and> sorted_wrt (\<lambda>a b. priority a < priority b
                 \<or> (priority a = priority b
                     \<and> rule_created_timestamp b \<le> rule_created_timestamp a))
       (rules_df ''(All Types)'' ''(All Tables)'' ''All''
          [sample_rule_new, sample_rule_dedup, sample_rule_old])
   \<and> sorted_wrt (\<lambda>a b. priority a \<le> priority b)
       (rules_for_table_df ''CUSTOMER'' [sample_rule_new, sample_rule_dedup, sample_rule_old])"
  using rules_listing_order
    [of "''CUSTOMER''" None "[sample_rule_new, sample_rule_dedup, sample_rule_old]"
        "''(All Types)''" "''(All Tables)''" "''All''" "''CUSTOMER''"]
  by blast

text \<open>
  C4 as stated fails twice. Of two rules with priority 10, the one created at 100 and
  the one created at 200, the All Transformation Rules listing shows the later first.
  And a deduplication rule of priority 1 is evaluated after the data-quality rule of
  priority 10 on the same table.
\<close>

theorem rules_tie_break_counterexample:
  "priority sample_rule_old = priority sample_rule_new
   \<and> rule_created_timestamp sample_rule_old < rule_created_timestamp sample_rule_new
   \<and> rules_df ''(All Types)'' ''(All Tables)'' ''All'' [sample_rule_old, sample_rule_new]
       = [sample_rule_new, sample_rule_old]
   \<and> priority sample_rule_dedup < priority sample_rule_old
   \<and> evaluation_order ''CUSTOMER'' (Some ''ID'') [sample_rule_dedup, sample_rule_old]
       = [sample_rule_old, sample_rule_dedup]"
  by (simp add: rules_df_def evaluation_order_def applicable_rules_def is_dedup_def
        sample_rule_old_def sample_rule_new_def sample_rule_dedup_def)

subsection \<open>Approval fields in the mappings editor\<close>

text \<open>
  When the two rows compared are rows of the same mapping, the statement the loop
  issues does what the tick says: ticking sets the approver and the time, unticking
  clears both, and any other edit leaves the three approval columns alone.
\<close>

lemma update_approve_sets:
  assumes "r \<in> set (update_approve now cu tlogic descr k tbl)" and "mapping_id r = k"
  shows "approved r \<and> approved_by r = Some cu \<and> approved_timestamp r = Some now"
proof -
  from assms(1) obtain x where r: "r = (if mapping_id x = k
              then x\<lparr>transformation_logic := tlogic, fm_description := descr, approved := True,
                     approved_by := Some cu, approved_timestamp := Some now,
                     fm_updated_timestamp := now\<rparr>
              else x)"
    unfolding update_approve_def set_map by (elim imageE)
  show ?thesis
  proof (cases "mapping_id x = k")
    case True
    with r show ?thesis by simp
  next
    case False
    with r assms(2) show ?thesis by simp
  qed
qed

lemma update_unapprove_clears:
  assumes "r \<in> set (update_unapprove now tlogic descr k tbl)" and "mapping_id r = k"
  shows "\<not> approved r \<and> approved_by r = None \<and> approved_timestamp r = None"
proof -
  from assms(1) obtain x where r: "r = (if mapping_id x = k
              then x\<lparr>transformation_logic := tlogic, fm_description := descr, approved := False,
                     approved_by := None, approved_timestamp := None,
                     fm_updated_timestamp := now\<rparr>
              else x)"
    unfolding update_unapprove_def set_map by (elim imageE)
  show ?thesis
  proof (cases "mapping_id x = k")
    case True
    with r show ?thesis by simp
  next
    case False
    with r assms(2) show ?thesis by simp
  qed
qed

lemma update_texts_keeps_approval:
  "map (\<lambda>r. (mapping_id r, approved r, approved_by r, approved_timestamp r))
     (update_texts now tlogic descr k tbl)
   = map (\<lambda>r. (mapping_id r, approved r, approved_by r, approved_timestamp r)) tbl"
  by (induction tbl) (simp_all add: update_texts_def)

lemma save_mapping_row_same_mapping:
  assumes "MAPPING_ID edited_row = Some k"
  shows "approved_value edited_row \<and> \<not> approved_value original_row \<longrightarrow>
           (\<forall>r\<in>set (fst (save_mapping_row now user_name (original_row, edited_row) st)).
              mapping_id r = k \<longrightarrow>
                approved r
                \<and> approved_by r = Some (case user_name of None \<Rightarrow> ''UNKNOWN'' | Some u \<Rightarrow> u)
                \<and> approved_timestamp r = Some now)"
    and "\<not> approved_value edited_row \<and> approved_value original_row \<longrightarrow>
           (\<forall>r\<in>set (fst (save_mapping_row now user_name (original_row, edited_row) st)).
              mapping_id r = k \<longrightarrow>
                \<not> approved r \<and> approved_by r = None \<and> approved_timestamp r = None)"
    and "approved_value edited_row = approved_value original_row \<longrightarrow>
           map (\<lambda>r. (mapping_id r, approved r, approved_by r, approved_timestamp r))
             (fst (save_mapping_row now user_name (original_row, edited_row) st))
           = map (\<lambda>r. (mapping_id r, approved r, approved_by r, approved_timestamp r)) (fst st)"
proof -
  let ?new = "fst (save_mapping_row now user_name (original_row, edited_row) st)"
  let ?tl = "cell_sql (TRANSFORMATION_LOGIC edited_row)"
  let ?ds = "cell_sql (DESCRIPTION edited_row)"
  show "approved_value edited_row \<and> \<not> approved_value original_row \<longrightarrow>
           (\<forall>r\<in>set ?new. mapping_id r = k \<longrightarrow>
                approved r
                \<and> approved_by r = Some (case user_name of None \<Rightarrow> ''UNKNOWN'' | Some u \<Rightarrow> u)
                \<and> approved_timestamp r = Some now)"
  proof (intro impI ballI)
    fix r
    assume a: "approved_value edited_row \<and> \<not> approved_value original_row"
      and r: "r \<in> set ?new" "mapping_id r = k"
    from a assms have "?new = update_approve now
        (case user_name of None \<Rightarrow> ''UNKNOWN'' | Some u \<Rightarrow> u) ?tl ?ds k (fst st)"
      by (simp add: save_mapping_row_def Let_def)
    with r show "approved r
        \<and> approved_by r = Some (case user_name of None \<Rightarrow> ''UNKNOWN'' | Some u \<Rightarrow> u)
        \<and> approved_timestamp r = Some now"
      using update_approve_sets by simp
  qed
  show "\<not> approved_value edited_row \<and> approved_value original_row \<longrightarrow>
           (\<forall>r\<in>set ?new. mapping_id r = k \<longrightarrow>
                \<not> approved r \<and> approved_by r = None \<and> approved_timestamp r = None)"
  proof (intro impI ballI)
    fix r
    assume a: "\<not> approved_value edited_row \<and> approved_value original_row"
      and r: "r \<in> set ?new" "mapping_id r = k"
    from a assms have "?new = update_unapprove now ?tl ?ds k (fst st)"
      by (simp add: save_mapping_row_def Let_def)
    with r show "\<not> approved r \<and> approved_by r = None \<and> approved_timestamp r = None"
      using update_unapprove_clears by simp
  qed
  show "approved_value edited_row = approved_value original_row \<longrightarrow>
           map (\<lambda>r. (mapping_id r, approved r, approved_by r, approved_timestamp r)) ?new
           = map (\<lambda>r. (mapping_id r, approved r, approved_by r, approved_timestamp r)) (fst st)"
  proof
    assume same: "approved_value edited_row = approved_value original_row"
    then have "?new = fst st \<or> ?new = update_texts now ?tl ?ds k (fst st)"
      using assms by (simp add: save_mapping_row_def Let_def)
    then show "map (\<lambda>r. (mapping_id r, approved r, approved_by r, approved_timestamp r)) ?new
           = map (\<lambda>r. (mapping_id r, approved r, approved_by r, approved_timestamp r)) (fst st)"
      using update_texts_keeps_approval [of now ?tl ?ds k "fst st"] by auto
  qed
qed

text \<open>
  C5 at a failing input. The editor shows the pending mapping A and mapping B, approved
  by ALICE at time 5. The user removes the row of A, edits only the description of B
  and saves at time 9 as BOB. The handler deletes A, then compares the rows by
  position: the first row shown (A, not approved) with the first row left (B, ticked).
  It takes B for newly approved and rewrites its approver and approval time, though
  the approved flag of B did not change.
\<close>

theorem save_after_delete_overwrites_approval:
  "display_df (mappings_query ''(All Tables)'' None Created_Oldest_First
                 [sample_mapping_A, sample_mapping_B]) = [sample_row_A, sample_row_B]
   \<and> save_mappings 9 (Some ''BOB'') [sample_row_A, sample_row_B]
         [sample_row_B\<lparr>DESCRIPTION := Some ''customer name''\<rparr>]
         [sample_mapping_A, sample_mapping_B]
     = ([sample_mapping_B\<lparr>fm_description := Some ''customer name'',
            approved_by := Some ''BOB'', approved_timestamp := Some 9,
            fm_updated_timestamp := 9\<rparr>], True)"
proof
  show "display_df (mappings_query ''(All Tables)'' None Created_Oldest_First
                 [sample_mapping_A, sample_mapping_B]) = [sample_row_A, sample_row_B]"
    by (simp add: display_df_def mappings_query_def IS_DUPLICATE_def duplicate_key_def
          get_status_indicator_def sample_mapping_A_def sample_mapping_B_def
          sample_row_A_def sample_row_B_def)
  have strip_nonempty: "strip ''customer name'' \<noteq> []"
    by (simp add: strip_def is_space_def)
  show "save_mappings 9 (Some ''BOB'') [sample_row_A, sample_row_B]
         [sample_row_B\<lparr>DESCRIPTION := Some ''customer name''\<rparr>]
         [sample_mapping_A, sample_mapping_B]
     = ([sample_mapping_B\<lparr>fm_description := Some ''customer name'',
            approved_by := Some ''BOB'', approved_timestamp := Some 9,
            fm_updated_timestamp := 9\<rparr>], True)"
    by (simp add: save_mappings_def deleted_mapping_ids_def List.map_filter_simps
          save_mapping_row_def approved_value_def str_cell_def cell_sql_def strip_nonempty
          update_approve_def update_unapprove_def update_texts_def delete_mapping_def
          sample_mapping_A_def sample_mapping_B_def sample_row_A_def sample_row_B_def Let_def)
qed

end
